theory Spec2Isabelle
  imports Main
begin

section \<open>Strings: number formatting as used by createPages\<close>

text \<open>
  The loop counter of \<^verbatim>\<open>createPages\<close> is a non-negative integer, so
  \<^verbatim>\<open>i.toString()\<close> is its decimal numeral without sign or leading zeros.
\<close>

definition digit_char :: "nat \<Rightarrow> char" where
  "digit_char d = ''0123456789'' ! d"

fun toString :: "nat \<Rightarrow> string" where
  "toString n = (if n < 10 then [digit_char n] else toString (n div 10) @ [digit_char (n mod 10)])"

declare toString.simps [simp del]

text \<open>
  \<^verbatim>\<open>s.padStart(w, c)\<close> with a one-character pad string: the pad character is
  repeated in front until the length \<open>w\<close> is reached; a string that is already as long
  is returned unchanged (never truncated).
\<close>

definition padStart :: "nat \<Rightarrow> char \<Rightarrow> string \<Rightarrow> string" where
  "padStart w c s = replicate (w - length s) c @ s"

text \<open>Lines 52-59 of \<^verbatim>\<open>script.js\<close>: the image path of the page with index \<open>i\<close>.\<close>

definition imagePath :: "nat \<Rightarrow> string" where
  "imagePath i =
     (if i = 0 then ''individual_pages/page_000_cover.jpg''
      else ''individual_pages/page_'' @ padStart 3 (CHR ''0'') (toString i) @ ''.jpg'')"

text \<open>Reading a decimal digit string back (used only to state properties).\<close>

definition digit_val :: "char \<Rightarrow> nat" where
  "digit_val c = of_char c - 48"

definition decimal_val :: "string \<Rightarrow> nat" where
  "decimal_val s = foldl (\<lambda>acc c. 10 * acc + digit_val c) 0 s"

definition is_digit :: "char \<Rightarrow> bool" where
  "is_digit c = (c \<in> set ''0123456789'')"

section \<open>DOM elements and the jQuery operations used by the controller\<close>

text \<open>
  An \<^verbatim>\<open>img\<close> element. \<open>src_attr\<close> is its \<^verbatim>\<open>src\<close> attribute, as written by
  \<^verbatim>\<open>.attr('src', ...)\<close>; \<open>img_src\<close> is its property \<^verbatim>\<open>img.src\<close>, which the browser
  gives as the attribute resolved against the base URL of the document.
\<close>

record image =
  src_attr :: string
  img_src :: string
  img_alt :: string
  img_complete :: bool

record element =
  classes :: "string list"
  child_img :: "image option"

text \<open>
  A jQuery selection over the children of \<^verbatim>\<open>#flipbook\<close> is the list of their
  positions, in document order.
\<close>

definition hasClass :: "string \<Rightarrow> element \<Rightarrow> bool" where
  "hasClass c e = (c \<in> set (classes e))"

definition find_class :: "string \<Rightarrow> element list \<Rightarrow> nat list" where
  "find_class c es = filter (\<lambda>i. hasClass c (es ! i)) [0..<length es]"

text \<open>
  \<^verbatim>\<open>.eq(i)\<close>: the \<open>i\<close>-th element of the selection; a negative \<open>i\<close> counts
  from the end; an index outside the selection gives the empty selection.
\<close>

definition eq_jq :: "int \<Rightarrow> nat list \<Rightarrow> nat list" where
  "eq_jq i sel =
     (let len = int (length sel); j = i + (if i < 0 then len else 0)
      in if 0 \<le> j \<and> j < len then [sel ! nat j] else [])"

definition on_selected :: "(element \<Rightarrow> element) \<Rightarrow> nat list \<Rightarrow> element list \<Rightarrow> element list" where
  "on_selected f sel es = map (\<lambda>i. if i \<in> set sel then f (es ! i) else es ! i) [0..<length es]"

definition add_class :: "string \<Rightarrow> element \<Rightarrow> element" where
  "add_class c e = (if c \<in> set (classes e) then e else e\<lparr>classes := classes e @ [c]\<rparr>)"

definition remove_classes :: "string list \<Rightarrow> element \<Rightarrow> element" where
  "remove_classes cs e = e\<lparr>classes := filter (\<lambda>c. c \<notin> set cs) (classes e)\<rparr>"

definition addClass :: "string \<Rightarrow> nat list \<Rightarrow> element list \<Rightarrow> element list" where
  "addClass c sel es = on_selected (add_class c) sel es"

definition removeClass :: "string list \<Rightarrow> nat list \<Rightarrow> element list \<Rightarrow> element list" where
  "removeClass cs sel es = on_selected (remove_classes cs) sel es"

section \<open>The external flip widget and the controller state\<close>

datatype js_error = Error string

text \<open>
  The widget is an opaque collaborator: the model keeps what it reports to the queries
  \<^verbatim>\<open>turn('page')\<close> and \<^verbatim>\<open>turn('view')\<close>. A view of \<open>None\<close> stands for
  \<^verbatim>\<open>null\<close>/\<^verbatim>\<open>undefined\<close>.
\<close>

record turn_widget =
  turn_page :: int
  turn_view :: "int list option"

text \<open>Effects on the outside world, in program order.\<close>

datatype action =
    LoadRequested nat
  | LoadSettled nat
  | PageAppended nat
  | WidgetInit
  | WidgetCommand string

datatype handler = PrevClick | NextClick | Keydown

record book =
  totalPages :: nat
  isLoaded :: bool
  flipbook :: "element list"
  widget :: turn_widget
  prev_disabled :: bool
  next_disabled :: bool
  loading_classes :: "string list"
  loading_text :: string
  loading_color :: string
  bound :: "handler list"
  effects :: "action list"

section \<open>loadImage\<close>

text \<open>
  The promise returned by \<^verbatim>\<open>loadImage\<close> together with its timer. A promise settles at
  most once: \<^verbatim>\<open>resolve\<close> and \<^verbatim>\<open>reject\<close> do nothing on a settled promise.
  \<^verbatim>\<open>clearTimeout\<close> cancels a timer that is still armed and does nothing otherwise.
\<close>

datatype timer = Armed nat | Cleared | Fired

datatype promise = Pending | Resolved | Rejected js_error

record load_state =
  settled :: promise
  timeout :: timer

definition resolve :: "load_state \<Rightarrow> load_state" where
  "resolve ls = (if settled ls = Pending then ls\<lparr>settled := Resolved\<rparr> else ls)"

definition reject :: "js_error \<Rightarrow> load_state \<Rightarrow> load_state" where
  "reject e ls = (if settled ls = Pending then ls\<lparr>settled := Rejected e\<rparr> else ls)"

definition clearTimeout :: "load_state \<Rightarrow> load_state" where
  "clearTimeout ls = (case timeout ls of Armed d \<Rightarrow> ls\<lparr>timeout := Cleared\<rparr> | _ \<Rightarrow> ls)"

text \<open>The three callbacks installed by the executor (lines 79-94).\<close>

definition on_timeout :: "image \<Rightarrow> load_state \<Rightarrow> load_state" where
  "on_timeout img ls = reject (Error (''Image load timeout: '' @ img_src img)) ls"

definition onload :: "image \<Rightarrow> load_state \<Rightarrow> load_state" where
  "onload img ls = resolve (clearTimeout ls)"

definition onerror :: "image \<Rightarrow> load_state \<Rightarrow> load_state" where
  "onerror img ls = reject (Error (''Failed to load image: '' @ img_src img)) (clearTimeout ls)"

text \<open>The executor itself, run synchronously by \<^verbatim>\<open>new Promise\<close> (lines 76-101).\<close>

definition loadImage :: "image \<Rightarrow> load_state" where
  "loadImage img =
     (let ls = \<lparr>settled = Pending, timeout = Armed 30000\<rparr>
      in if img_complete img then resolve (clearTimeout ls) else ls)"

text \<open>
  What the browser may do to a pending load, in the order it does it: the image signals
  a successful load, the image signals an error, or the timer's delay elapses. The timer
  callback runs only if the timer is still armed.
\<close>

datatype img_event = ImgLoad | ImgError | TimerElapsed

definition deliver :: "image \<Rightarrow> load_state \<Rightarrow> img_event \<Rightarrow> load_state" where
  "deliver img ls ev =
     (case ev of
        ImgLoad \<Rightarrow> onload img ls
      | ImgError \<Rightarrow> onerror img ls
      | TimerElapsed \<Rightarrow>
          (case timeout ls of
             Armed d \<Rightarrow> on_timeout img (ls\<lparr>timeout := Fired\<rparr>)
           | _ \<Rightarrow> ls))"

definition run_events :: "image \<Rightarrow> img_event list \<Rightarrow> load_state \<Rightarrow> load_state" where
  "run_events img evs ls = foldl (deliver img) ls evs"

section \<open>The environment of one start-up\<close>

record image_env =
  complete_at_request :: bool
  events :: "img_event list"

text \<open>
  \<open>resolve_url\<close> is the resolution of a relative URL against the base URL of the
  document that hosts the controller.
\<close>

record environment =
  jquery_loaded :: bool
  turn_loaded :: bool
  resolve_url :: "string \<Rightarrow> string"
  turn_init :: "js_error + turn_widget"
  image_loads :: "nat \<Rightarrow> image_env"

section \<open>The controller: class TurnJSBook\<close>

datatype completion = Returned | Threw js_error | Suspended

definition showLoading :: "book \<Rightarrow> book" where
  "showLoading b = b\<lparr>loading_classes := filter (\<lambda>c. c \<noteq> ''hidden'') (loading_classes b)\<rparr>"

definition hideLoading :: "book \<Rightarrow> book" where
  "hideLoading b =
     (if ''hidden'' \<in> set (loading_classes b) then b
      else b\<lparr>loading_classes := loading_classes b @ [''hidden'']\<rparr>)"

definition showError :: "js_error \<Rightarrow> book \<Rightarrow> book" where
  "showError error b =
     (case error of Error message \<Rightarrow>
        b\<lparr>loading_text := ''Error: '' @ message @ ''. Check console for details.'',
          loading_color := ''#ff6b6b''\<rparr>)"

text \<open>
  The loop of \<^verbatim>\<open>createPages\<close> from counter \<open>i\<close> on (lines 49-70). The
  \<^verbatim>\<open>await\<close> suspends the function until the promise has settled: it resumes on
  \<open>Resolved\<close>, throws on \<open>Rejected\<close>, and stays suspended while the promise is pending.
\<close>

function createPages_from :: "environment \<Rightarrow> nat \<Rightarrow> book \<Rightarrow> completion \<times> book" where
  "createPages_from env i b =
     (if i < totalPages b then
        (let path = imagePath i;
             page = \<lparr>classes = [''page''], child_img = None\<rparr>;
             img = \<lparr>src_attr = path, img_src = resolve_url env path,
                    img_alt = ''Page '' @ toString (i + 1),
                    img_complete = complete_at_request (image_loads env i)\<rparr>;
             b1 = b\<lparr>effects := effects b @ [LoadRequested i]\<rparr>
         in case settled (run_events img (events (image_loads env i)) (loadImage img)) of
              Pending \<Rightarrow> (Suspended, b1)
            | Rejected e \<Rightarrow> (Threw e, b1\<lparr>effects := effects b1 @ [LoadSettled i]\<rparr>)
            | Resolved \<Rightarrow>
                createPages_from env (i + 1)
                  (b1\<lparr>flipbook := flipbook b1 @ [page\<lparr>child_img := Some img\<rparr>],
                      effects := effects b1 @ [LoadSettled i, PageAppended i]\<rparr>))
      else (Returned, b))"
  by pat_completeness auto
termination
  by (relation "measure (\<lambda>(env, i, b). totalPages b - i)") auto

declare createPages_from.simps [simp del]

definition createPages :: "environment \<Rightarrow> book \<Rightarrow> completion \<times> book" where
  "createPages env b = createPages_from env 0 b"

text \<open>\<^verbatim>\<open>this.flipbook.find('.page').eq(index).addClass(c)\<close>\<close>

definition page_addClass :: "string \<Rightarrow> int \<Rightarrow> book \<Rightarrow> book" where
  "page_addClass c index b =
     b\<lparr>flipbook := addClass c (eq_jq index (find_class ''page'' (flipbook b))) (flipbook b)\<rparr>"

text \<open>\<^verbatim>\<open>this.flipbook.find('.page').removeClass(cs)\<close>\<close>

definition pages_removeClass :: "string list \<Rightarrow> book \<Rightarrow> book" where
  "pages_removeClass cs b =
     b\<lparr>flipbook := removeClass cs (find_class ''page'' (flipbook b)) (flipbook b)\<rparr>"

definition updatePageShadows :: "int \<Rightarrow> book \<Rightarrow> book" where
  "updatePageShadows page b =
     (let b1 = pages_removeClass [''left-shadow'', ''right-shadow''] b
      in case turn_view (widget b1) of
           None \<Rightarrow> b1
         | Some view \<Rightarrow>
             if length view > 0 then
               if length view \<ge> 2 then
                 (let leftPageIndex = view ! 0 - 1;
                      rightPageIndex = view ! 1 - 1;
                      b2 = (if page > 1 \<and> leftPageIndex \<ge> 0
                            then page_addClass ''left-shadow'' leftPageIndex b1 else b1)
                  in if rightPageIndex \<ge> 0
                     then page_addClass ''right-shadow'' rightPageIndex b2 else b2)
               else
                 (let pageIndex = view ! 0 - 1
                  in if page = 1 then page_addClass ''right-shadow'' pageIndex b1
                     else page_addClass ''left-shadow'' pageIndex b1)
             else b1)"

text \<open>
  \<^verbatim>\<open>updateUI(page)\<close>: a falsy argument (the number 0) is replaced by the page the
  widget reports.
\<close>

definition updateUI :: "int \<Rightarrow> book \<Rightarrow> book" where
  "updateUI page0 b =
     (let page = (if page0 = 0 then turn_page (widget b) else page0);
          b1 = b\<lparr>prev_disabled := (page \<le> 1)\<rparr>;
          b2 = b1\<lparr>next_disabled := (page \<ge> int (totalPages b1))\<rparr>
      in updatePageShadows page b2)"

text \<open>The \<^verbatim>\<open>turned\<close> callback registered with the widget (lines 131-134).\<close>

definition turned :: "int \<Rightarrow> int list option \<Rightarrow> book \<Rightarrow> book" where
  "turned page view b = updateUI page b"

definition initializeTurnJS :: "environment \<Rightarrow> book \<Rightarrow> completion \<times> book" where
  "initializeTurnJS env b =
     (if \<not> jquery_loaded env then (Threw (Error ''jQuery is not loaded''), b)
      else if \<not> turn_loaded env then (Threw (Error ''Turn.js is not loaded''), b)
      else
        (let b1 = b\<lparr>effects := effects b @ [WidgetInit]\<rparr>
         in case turn_init env of
              Inl e \<Rightarrow> (Threw e, b1)
            | Inr w \<Rightarrow>
                (let b2 = updateUI 1 (b1\<lparr>widget := w\<rparr>)
                 in (Returned, b2\<lparr>isLoaded := True\<rparr>))))"

text \<open>\<^verbatim>\<open>this.flipbook.turn(c)\<close> for a command \<open>c\<close>.\<close>

definition turn_command :: "string \<Rightarrow> book \<Rightarrow> book" where
  "turn_command c b = b\<lparr>effects := effects b @ [WidgetCommand c]\<rparr>"

text \<open>The three handlers of \<^verbatim>\<open>bindEvents\<close> (lines 148-169).\<close>

definition prev_click :: "book \<Rightarrow> book" where
  "prev_click b = (if isLoaded b then turn_command ''previous'' b else b)"

definition next_click :: "book \<Rightarrow> book" where
  "next_click b = (if isLoaded b then turn_command ''next'' b else b)"

definition keydown :: "string \<Rightarrow> book \<Rightarrow> book" where
  "keydown key b =
     (if \<not> isLoaded b then b
      else if key = ''ArrowLeft'' then turn_command ''previous'' b
      else if key = ''ArrowRight'' then turn_command ''next'' b
      else b)"

definition bindEvents :: "book \<Rightarrow> book" where
  "bindEvents b = b\<lparr>bound := bound b @ [PrevClick, NextClick, Keydown]\<rparr>"

text \<open>User input, and its delivery to the handlers that are bound.\<close>

datatype ui_event = ClickPrev | ClickNext | Key string

fun run_handler :: "ui_event \<Rightarrow> book \<Rightarrow> handler \<Rightarrow> book" where
  "run_handler ClickPrev b PrevClick = prev_click b"
| "run_handler ClickNext b NextClick = next_click b"
| "run_handler (Key k) b Keydown = keydown k b"
| "run_handler _ b _ = b"

definition dispatch :: "ui_event \<Rightarrow> book \<Rightarrow> book" where
  "dispatch ev b = foldl (run_handler ev) b (bound b)"

text \<open>\<^verbatim>\<open>init\<close> (lines 15-28) and the constructor (lines 2-13).\<close>

definition init :: "environment \<Rightarrow> book \<Rightarrow> book" where
  "init env b =
     (let b1 = showLoading b
      in case createPages env b1 of
           (Suspended, b2) \<Rightarrow> b2
         | (Threw error, b2) \<Rightarrow> showError error b2
         | (Returned, b2) \<Rightarrow>
             (case initializeTurnJS env b2 of
                (Threw error, b3) \<Rightarrow> showError error b3
              | (_, b3) \<Rightarrow> hideLoading (bindEvents b3)))"

definition TurnJSBook :: "environment \<Rightarrow> book \<Rightarrow> book" where
  "TurnJSBook env document = init env (document\<lparr>totalPages := 21, isLoaded := False\<rparr>)"

section \<open>Auxiliary notions used in the statements\<close>

definition is_armed :: "timer \<Rightarrow> bool" where
  "is_armed t = (case t of Armed d \<Rightarrow> True | _ \<Rightarrow> False)"

text \<open>Concrete data for instantiating the theorems.\<close>

definition example_document :: book where
  "example_document =
     \<lparr>totalPages = 21, isLoaded = False, flipbook = [],
      widget = \<lparr>turn_page = 0, turn_view = None\<rparr>,
      prev_disabled = False, next_disabled = False,
      loading_classes = [''hidden''], loading_text = ''Loading'', loading_color = [],
      bound = [], effects = []\<rparr>"

definition example_environment :: environment where
  "example_environment =
     \<lparr>jquery_loaded = True, turn_loaded = True,
      resolve_url = (\<lambda>path. ''http://localhost/'' @ path),
      turn_init = Inr \<lparr>turn_page = 1, turn_view = Some [0, 1]\<rparr>,
      image_loads = (\<lambda>i. \<lparr>complete_at_request = False, events = [ImgLoad]\<rparr>)\<rparr>"

text \<open>
  Names for what one round of the loop of \<^verbatim>\<open>createPages\<close> builds and does: the image
  element for index \<open>i\<close>, the state in which its promise ends up once the browser's events
  for it are over, the page element that is appended, and the effects of a round that
  succeeds.
\<close>

definition new_image :: "environment \<Rightarrow> nat \<Rightarrow> image" where
  "new_image env i =
     \<lparr>src_attr = imagePath i, img_src = resolve_url env (imagePath i),
      img_alt = ''Page '' @ toString (i + 1),
      img_complete = complete_at_request (image_loads env i)\<rparr>"

definition load_outcome :: "environment \<Rightarrow> nat \<Rightarrow> promise" where
  "load_outcome env i =
     settled (run_events (new_image env i) (events (image_loads env i)) (loadImage (new_image env i)))"

definition new_page :: "environment \<Rightarrow> nat \<Rightarrow> element" where
  "new_page env i = \<lparr>classes = [''page''], child_img = Some (new_image env i)\<rparr>"

definition page_actions :: "nat \<Rightarrow> action list" where
  "page_actions i = [LoadRequested i, LoadSettled i, PageAppended i]"

definition with_pages :: "environment \<Rightarrow> nat \<Rightarrow> nat \<Rightarrow> book \<Rightarrow> book" where
  "with_pages env i k b =
     b\<lparr>flipbook := flipbook b @ map (new_page env) [i..<k],
       effects := effects b @ concat (map page_actions [i..<k])\<rparr>"

definition example_failing_environment :: environment where
  "example_failing_environment =
     \<lparr>jquery_loaded = True, turn_loaded = True,
      resolve_url = (\<lambda>path. ''http://localhost/'' @ path),
      turn_init = Inr \<lparr>turn_page = 1, turn_view = Some [0, 1]\<rparr>,
      image_loads = (\<lambda>i. if i = 2 then \<lparr>complete_at_request = False, events = [ImgError]\<rparr>
                         else \<lparr>complete_at_request = False, events = [ImgLoad]\<rparr>)\<rparr>"

text \<open>
  The elements that \<^verbatim>\<open>this.flipbook.find('.page')\<close> matches, in document order; a
  viewport page number \<open>v\<close> (1-based) refers to the element at index \<open>v - 1\<close> of this list.
\<close>

definition page_elements :: "book \<Rightarrow> element list" where
  "page_elements b = map (\<lambda>i. flipbook b ! i) (find_class ''page'' (flipbook b))"

definition example_spread :: book where
  "example_spread =
     example_document
       \<lparr>totalPages := 4,
        flipbook :=
          [\<lparr>classes = [''page'', ''right-shadow''], child_img = None\<rparr>,
           \<lparr>classes = [''page'', ''left-shadow''], child_img = None\<rparr>,
           \<lparr>classes = [''page''], child_img = None\<rparr>,
           \<lparr>classes = [''page'', ''left-shadow'', ''right-shadow''], child_img = None\<rparr>],
        widget := \<lparr>turn_page = 3, turn_view = Some [2, 3]\<rparr>\<rparr>"

section \<open>Path generation\<close>

lemma digit_char_is_digit: "d < 10 \<Longrightarrow> is_digit (digit_char d)"
  unfolding is_digit_def digit_char_def by (rule nth_mem) simp

lemma lt10: "(d::nat) < 10 \<Longrightarrow> d = 0 \<or> d = 1 \<or> d = 2 \<or> d = 3 \<or> d = 4 \<or> d = 5 \<or> d = 6 \<or> d = 7 \<or> d = 8 \<or> d = 9"
  by arith

lemma digit_val_digit_char: "d < 10 \<Longrightarrow> digit_val (digit_char d) = d"
  by (drule lt10) (elim disjE; simp add: digit_val_def digit_char_def)

lemma toString_digits: "\<forall>c \<in> set (toString n). is_digit c"
proof (induction n rule: toString.induct)
  case (1 n)
  show ?case
  proof (cases "n < 10")
    case True
    then show ?thesis by (subst toString.simps) (simp add: digit_char_is_digit)
  next
    case False
    with 1 show ?thesis by (subst toString.simps) (simp add: digit_char_is_digit)
  qed
qed

lemma decimal_val_snoc: "decimal_val (s @ [c]) = 10 * decimal_val s + digit_val c"
  by (simp add: decimal_val_def)

lemma decimal_val_toString: "decimal_val (toString n) = n"
proof (induction n rule: toString.induct)
  case (1 n)
  show ?case
  proof (cases "n < 10")
    case True
    then show ?thesis
      by (subst toString.simps) (simp add: decimal_val_def digit_val_digit_char)
  next
    case False
    with 1 have "decimal_val (toString (n div 10)) = n div 10" by simp
    with False show ?thesis
      by (subst toString.simps) (simp add: decimal_val_snoc digit_val_digit_char)
  qed
qed


lemma decimal_val_zeros: "decimal_val (replicate k (CHR ''0'') @ s) = decimal_val s"
proof -
  have "foldl (\<lambda>acc c. 10 * acc + digit_val c) 0 (replicate k (CHR ''0'')) = 0"
    by (induction k) (simp_all add: digit_val_def)
  then show ?thesis by (simp add: decimal_val_def)
qed

lemma decimal_val_padStart: "decimal_val (padStart w (CHR ''0'') (toString n)) = n"
  by (simp add: padStart_def decimal_val_zeros decimal_val_toString)

lemma padStart_digits: "\<forall>c \<in> set (padStart w (CHR ''0'') (toString n)). is_digit c"
proof -
  have "is_digit (CHR ''0'')" by (simp add: is_digit_def)
  with toString_digits [of n] show ?thesis by (auto simp: padStart_def)
qed

lemma length_padStart: "length (padStart w c s) = max w (length s)"
  by (simp add: padStart_def)

lemma length_toString_pos: "0 < length (toString n)"
  by (subst toString.simps) simp

lemma length_toString_small: "n < 1000 \<Longrightarrow> length (toString n) \<le> 3"
proof -
  assume "n < 1000"
  then have "n div 10 div 10 < 10" by arith
  then have "length (toString (n div 10 div 10)) = 1"
    by (subst toString.simps) simp
  then have "length (toString (n div 10)) \<le> 2"
    by (subst toString.simps) simp
  then show "length (toString n) \<le> 3"
    by (subst toString.simps) simp
qed

lemma imagePath_numeric_neq_cover:
  "''individual_pages/page_'' @ padStart w (CHR ''0'') (toString n) @ ''.jpg''
     \<noteq> ''individual_pages/page_000_cover.jpg''"
proof
  assume "''individual_pages/page_'' @ padStart w (CHR ''0'') (toString n) @ ''.jpg''
     = ''individual_pages/page_000_cover.jpg''"
  then have "padStart w (CHR ''0'') (toString n) @ ''.jpg'' = ''000_cover'' @ ''.jpg''"
    by simp
  then have "padStart w (CHR ''0'') (toString n) = ''000_cover''"
    by (simp only: append_same_eq)
  with padStart_digits [of w n] show False
    by (simp add: is_digit_def)
qed

lemma imagePath_inj: "imagePath i = imagePath j \<Longrightarrow> i = j"
proof -
  assume eq: "imagePath i = imagePath j"
  show ?thesis
  proof (cases "i = 0 \<or> j = 0")
    case True
    with eq imagePath_numeric_neq_cover [of 3 i] imagePath_numeric_neq_cover [of 3 j]
    show ?thesis by (auto simp: imagePath_def split: if_splits)
  next
    case False
    with eq have "padStart 3 (CHR ''0'') (toString i) = padStart 3 (CHR ''0'') (toString j)"
      by (simp add: imagePath_def)
    then have "decimal_val (padStart 3 (CHR ''0'') (toString i))
             = decimal_val (padStart 3 (CHR ''0'') (toString j))" by simp
    then show ?thesis by (simp only: decimal_val_padStart)
  qed
qed

text \<open>
  Claim C5. The image path is a function of the index alone. Index 0 gives the cover file
  name. Every index \<open>i \<ge> 1\<close> gives \<^verbatim>\<open>individual_pages/page_\<close>, then the decimal
  numeral of \<open>i\<close> padded with zeros in front to width 3, then \<^verbatim>\<open>.jpg\<close>: the padded
  field consists of digits only, reads back as \<open>i\<close>, has length \<open>max 3 (number of digits)\<close>,
  which is exactly 3 for every index below 1000 (the loop of \<^verbatim>\<open>createPages\<close> only
  reaches indices below \<open>totalPages = 21\<close>), and the path differs from the cover path.
  Different indices give different paths.
\<close>

theorem imagePath_rule:
  "imagePath 0 = ''individual_pages/page_000_cover.jpg'' \<and>
   (1 \<le> i \<longrightarrow>
      imagePath i = ''individual_pages/page_'' @ padStart 3 (CHR ''0'') (toString i) @ ''.jpg'' \<and>
      (\<forall>c \<in> set (padStart 3 (CHR ''0'') (toString i)). is_digit c) \<and>
      decimal_val (padStart 3 (CHR ''0'') (toString i)) = i \<and>
      length (padStart 3 (CHR ''0'') (toString i)) = max 3 (length (toString i)) \<and>
      (i < 1000 \<longrightarrow> length (padStart 3 (CHR ''0'') (toString i)) = 3) \<and>
      imagePath i \<noteq> imagePath 0) \<and>
   (imagePath i = imagePath j \<longrightarrow> i = j)"
proof -
  have cover: "imagePath 0 = ''individual_pages/page_000_cover.jpg''"
    by (simp add: imagePath_def)
  have numeric: "imagePath i = ''individual_pages/page_'' @ padStart 3 (CHR ''0'') (toString i) @ ''.jpg''"
    if "1 \<le> i"
    using that by (simp add: imagePath_def)
  have width: "length (padStart 3 (CHR ''0'') (toString i)) = 3" if "i < 1000"
    using length_toString_small [OF that] by (simp add: length_padStart)
  have distinct: "imagePath i \<noteq> imagePath 0" if "1 \<le> i"
    using that imagePath_inj [of i 0] by auto
  show ?thesis
    using cover numeric width distinct padStart_digits [of 3 i] decimal_val_padStart [of 3 i]
      length_padStart [of 3 "CHR ''0''" "toString i"] imagePath_inj [of i j]
    by blast
qed

theorem imagePath_rule_witness:
  "(1::nat) \<le> 7 \<and> (7::nat) < 1000 \<and> imagePath 7 = ''individual_pages/page_007.jpg'' \<and>
   length (padStart 3 (CHR ''0'') (toString 7)) = 3 \<and> imagePath 7 \<noteq> imagePath 0 \<and>
   decimal_val (padStart 3 (CHR ''0'') (toString 7)) = 7"
proof -
  have p: "imagePath 7 = ''individual_pages/page_007.jpg''" by code_simp
  have h: "(1::nat) \<le> 7" "(7::nat) < 1000" by simp_all
  from imagePath_rule [of 7 7] h
  have "length (padStart 3 (CHR ''0'') (toString 7)) = 3 \<and> imagePath 7 \<noteq> imagePath 0 \<and>
        decimal_val (padStart 3 (CHR ''0'') (toString 7)) = 7"
    by blast
  with h p show ?thesis by blast
qed

section \<open>loadImage settles once\<close>

lemma deliver_settled_stable:
  "settled ls \<noteq> Pending \<Longrightarrow> settled (deliver img ls ev) = settled ls"
  by (cases ev)
     (auto simp: deliver_def onload_def onerror_def on_timeout_def resolve_def reject_def
        clearTimeout_def split: timer.splits)

lemma deliver_timer_stable:
  "\<not> is_armed (timeout ls) \<Longrightarrow> timeout (deliver img ls ev) = timeout ls"
  by (cases ev)
     (auto simp: deliver_def onload_def onerror_def on_timeout_def resolve_def reject_def
        clearTimeout_def is_armed_def split: timer.splits)

lemma run_events_settled_stable:
  "settled ls \<noteq> Pending \<Longrightarrow> settled (run_events img evs ls) = settled ls"
  unfolding run_events_def
  by (induction evs arbitrary: ls) (simp_all add: deliver_settled_stable)

lemma run_events_timer_stable:
  "\<not> is_armed (timeout ls) \<Longrightarrow> timeout (run_events img evs ls) = timeout ls"
  unfolding run_events_def
  by (induction evs arbitrary: ls) (simp_all add: deliver_timer_stable)

lemma run_events_Cons: "run_events img (ev # evs) ls = run_events img evs (deliver img ls ev)"
  by (simp add: run_events_def)

lemma run_events_append:
  "run_events img (evs @ later) ls = run_events img later (run_events img evs ls)"
  by (simp add: run_events_def)

lemma deliver_first:
  assumes "settled ls = Pending" "timeout ls = Armed d"
  shows "deliver img ls ImgLoad = \<lparr>settled = Resolved, timeout = Cleared\<rparr>"
    and "deliver img ls ImgError =
           \<lparr>settled = Rejected (Error (''Failed to load image: '' @ img_src img)), timeout = Cleared\<rparr>"
    and "deliver img ls TimerElapsed =
           \<lparr>settled = Rejected (Error (''Image load timeout: '' @ img_src img)), timeout = Fired\<rparr>"
  using assms
  by (cases ls; simp add: deliver_def onload_def onerror_def on_timeout_def resolve_def reject_def
        clearTimeout_def)+

lemma deliver_invariant:
  "(settled ls \<noteq> Pending \<longrightarrow> \<not> is_armed (timeout ls)) \<Longrightarrow>
   settled (deliver img ls ev) \<noteq> Pending \<longrightarrow> \<not> is_armed (timeout (deliver img ls ev))"
  by (cases ev)
     (auto simp: deliver_def onload_def onerror_def on_timeout_def resolve_def reject_def
        clearTimeout_def is_armed_def split: timer.splits)

lemma run_events_invariant:
  "(settled ls \<noteq> Pending \<longrightarrow> \<not> is_armed (timeout ls)) \<Longrightarrow>
   settled (run_events img evs ls) \<noteq> Pending \<longrightarrow> \<not> is_armed (timeout (run_events img evs ls))"
  unfolding run_events_def
proof (induction evs arbitrary: ls)
  case Nil
  then show ?case by simp
next
  case (Cons ev evs)
  from deliver_invariant [OF Cons.prems] Cons.IH [of "deliver img ls ev"]
  show ?case by simp
qed

lemma loadImage_complete:
  "img_complete img \<Longrightarrow> loadImage img = \<lparr>settled = Resolved, timeout = Cleared\<rparr>"
  by (simp add: loadImage_def resolve_def clearTimeout_def)

lemma loadImage_incomplete:
  "\<not> img_complete img \<Longrightarrow> loadImage img = \<lparr>settled = Pending, timeout = Armed 30000\<rparr>"
  by (simp add: loadImage_def)

text \<open>
  Claim C3. For every image element and every sequence of browser events after the
  request: if the image is already complete at request time, the promise is resolved at
  once and stays resolved, with the timer cancelled. Otherwise the promise is pending
  with a timer of 30000 ms armed, and the first event decides: a load signal resolves it
  and cancels the timer; an error signal rejects it with the load-failure error and
  cancels the timer; the elapsed timer rejects it with the timeout error. Once settled,
  no timer is left armed and later events change neither the outcome nor the timer.
\<close>

theorem loadImage_contract:
  "(img_complete img \<longrightarrow>
      settled (loadImage img) = Resolved \<and>
      settled (run_events img evs (loadImage img)) = Resolved \<and>
      timeout (run_events img evs (loadImage img)) = Cleared) \<and>
   (\<not> img_complete img \<longrightarrow>
      loadImage img = \<lparr>settled = Pending, timeout = Armed 30000\<rparr> \<and>
      settled (run_events img (ImgLoad # evs) (loadImage img)) = Resolved \<and>
      timeout (run_events img (ImgLoad # evs) (loadImage img)) = Cleared \<and>
      settled (run_events img (ImgError # evs) (loadImage img))
        = Rejected (Error (''Failed to load image: '' @ img_src img)) \<and>
      timeout (run_events img (ImgError # evs) (loadImage img)) = Cleared \<and>
      settled (run_events img (TimerElapsed # evs) (loadImage img))
        = Rejected (Error (''Image load timeout: '' @ img_src img)) \<and>
      timeout (run_events img (TimerElapsed # evs) (loadImage img)) = Fired) \<and>
   (settled (run_events img evs (loadImage img)) \<noteq> Pending \<longrightarrow>
      \<not> is_armed (timeout (run_events img evs (loadImage img))) \<and>
      settled (run_events img (evs @ later) (loadImage img))
        = settled (run_events img evs (loadImage img)) \<and>
      timeout (run_events img (evs @ later) (loadImage img))
        = timeout (run_events img evs (loadImage img)))"
proof -
  let ?final = "run_events img evs (loadImage img)"
  have complete: "settled (loadImage img) = Resolved \<and> settled ?final = Resolved \<and> timeout ?final = Cleared"
    if "img_complete img"
    using that
    by (simp add: loadImage_complete run_events_settled_stable run_events_timer_stable is_armed_def)
  have first: "settled (run_events img (ev # evs) (loadImage img)) = settled (deliver img (loadImage img) ev)
      \<and> timeout (run_events img (ev # evs) (loadImage img)) = timeout (deliver img (loadImage img) ev)"
    if "\<not> img_complete img" "ev = ImgLoad \<or> ev = ImgError \<or> ev = TimerElapsed" for ev
    using that deliver_first [of "loadImage img" 30000 img]
    by (auto simp: run_events_Cons loadImage_incomplete run_events_settled_stable
          run_events_timer_stable is_armed_def)
  have incomplete: "loadImage img = \<lparr>settled = Pending, timeout = Armed 30000\<rparr> \<and>
      settled (run_events img (ImgLoad # evs) (loadImage img)) = Resolved \<and>
      timeout (run_events img (ImgLoad # evs) (loadImage img)) = Cleared \<and>
      settled (run_events img (ImgError # evs) (loadImage img))
        = Rejected (Error (''Failed to load image: '' @ img_src img)) \<and>
      timeout (run_events img (ImgError # evs) (loadImage img)) = Cleared \<and>
      settled (run_events img (TimerElapsed # evs) (loadImage img))
        = Rejected (Error (''Image load timeout: '' @ img_src img)) \<and>
      timeout (run_events img (TimerElapsed # evs) (loadImage img)) = Fired"
    if "\<not> img_complete img"
    using that first [of ImgLoad] first [of ImgError] first [of TimerElapsed]
      deliver_first [of "loadImage img" 30000 img]
    by (simp add: loadImage_incomplete)
  have init: "settled (loadImage img) \<noteq> Pending \<longrightarrow> \<not> is_armed (timeout (loadImage img))"
    by (cases "img_complete img") (simp_all add: loadImage_complete loadImage_incomplete is_armed_def)
  have settled: "\<not> is_armed (timeout ?final) \<and>
      settled (run_events img (evs @ later) (loadImage img)) = settled ?final \<and>
      timeout (run_events img (evs @ later) (loadImage img)) = timeout ?final"
    if "settled ?final \<noteq> Pending"
  proof -
    from run_events_invariant [OF init, of img evs] that
    have na: "\<not> is_armed (timeout ?final)" by simp
    with that show ?thesis
      by (simp add: run_events_append run_events_settled_stable run_events_timer_stable)
  qed
  from complete incomplete settled show ?thesis by blast
qed

theorem loadImage_contract_witness:
  "img_complete \<lparr>src_attr = ''a.jpg'', img_src = ''http://localhost/a.jpg'', img_alt = ''Page 1'', img_complete = True\<rparr> \<and>
   settled (run_events \<lparr>src_attr = ''a.jpg'', img_src = ''http://localhost/a.jpg'', img_alt = ''Page 1'', img_complete = True\<rparr> [ImgError]
      (loadImage \<lparr>src_attr = ''a.jpg'', img_src = ''http://localhost/a.jpg'', img_alt = ''Page 1'', img_complete = True\<rparr>)) = Resolved \<and>
   \<not> img_complete \<lparr>src_attr = ''a.jpg'', img_src = ''http://localhost/a.jpg'', img_alt = ''Page 1'', img_complete = False\<rparr> \<and>
   settled (run_events \<lparr>src_attr = ''a.jpg'', img_src = ''http://localhost/a.jpg'', img_alt = ''Page 1'', img_complete = False\<rparr>
      [TimerElapsed, ImgLoad]
      (loadImage \<lparr>src_attr = ''a.jpg'', img_src = ''http://localhost/a.jpg'', img_alt = ''Page 1'', img_complete = False\<rparr>))
     = Rejected (Error ''Image load timeout: http://localhost/a.jpg'') \<and>
   settled (run_events \<lparr>src_attr = ''a.jpg'', img_src = ''http://localhost/a.jpg'', img_alt = ''Page 1'', img_complete = False\<rparr>
      [ImgLoad]
      (loadImage \<lparr>src_attr = ''a.jpg'', img_src = ''http://localhost/a.jpg'', img_alt = ''Page 1'', img_complete = False\<rparr>)) \<noteq> Pending \<and>
   settled (run_events \<lparr>src_attr = ''a.jpg'', img_src = ''http://localhost/a.jpg'', img_alt = ''Page 1'', img_complete = False\<rparr>
      ([ImgLoad] @ [ImgError])
      (loadImage \<lparr>src_attr = ''a.jpg'', img_src = ''http://localhost/a.jpg'', img_alt = ''Page 1'', img_complete = False\<rparr>)) = Resolved"
proof -
  let ?c = "\<lparr>src_attr = ''a.jpg'', img_src = ''http://localhost/a.jpg'', img_alt = ''Page 1'', img_complete = True\<rparr>"
  let ?p = "\<lparr>src_attr = ''a.jpg'', img_src = ''http://localhost/a.jpg'', img_alt = ''Page 1'', img_complete = False\<rparr>"
  have c: "img_complete ?c" and p: "\<not> img_complete ?p" by simp_all
  have s: "settled (run_events ?p [ImgLoad] (loadImage ?p)) = Resolved"
    by (simp add: run_events_def deliver_def onload_def resolve_def clearTimeout_def loadImage_def)
  from loadImage_contract [of ?c "[ImgError]" "[]"] c
  have 1: "settled (run_events ?c [ImgError] (loadImage ?c)) = Resolved" by blast
  from loadImage_contract [of ?p "[ImgLoad]" "[ImgError]"] p
  have 2: "settled (run_events ?p (TimerElapsed # [ImgLoad]) (loadImage ?p))
             = Rejected (Error (''Image load timeout: '' @ img_src ?p))" by blast
  from s have s': "settled (run_events ?p [ImgLoad] (loadImage ?p)) \<noteq> Pending"
    by (simp only: promise.distinct not_False_eq_True)
  from loadImage_contract [of ?p "[ImgLoad]" "[ImgError]"] s'
  have "settled (run_events ?p ([ImgLoad] @ [ImgError]) (loadImage ?p))
          = settled (run_events ?p [ImgLoad] (loadImage ?p))" by blast
  with s have 3: "settled (run_events ?p ([ImgLoad] @ [ImgError]) (loadImage ?p)) = Resolved"
    by (simp only:)
  from 2 have timed: "settled (run_events ?p [TimerElapsed, ImgLoad] (loadImage ?p))
             = Rejected (Error ''Image load timeout: http://localhost/a.jpg'')" by simp
  from c p s' 1 timed 3 show ?thesis by blast
qed

section \<open>Navigation handlers\<close>

lemma run_handler_not_loaded: "\<not> isLoaded b \<Longrightarrow> run_handler ev b h = b"
  by (cases ev; cases h) (simp_all add: prev_click_def next_click_def keydown_def)

lemma foldl_run_handler_not_loaded: "\<not> isLoaded b \<Longrightarrow> foldl (run_handler ev) b hs = b"
  by (induction hs) (simp_all add: run_handler_not_loaded)

text \<open>
  Claim C9. While \<open>isLoaded\<close> is false, each of the three handlers returns the state it
  was given, whatever the key: nothing is changed, no command is sent to the widget and
  nothing is recorded for later. The same holds for the delivery of any click or key
  event to whatever handlers are bound.
\<close>

theorem navigation_ignored_before_ready:
  assumes "\<not> isLoaded b"
  shows "prev_click b = b \<and> next_click b = b \<and>
         keydown ''ArrowLeft'' b = b \<and> keydown ''ArrowRight'' b = b \<and> keydown k b = b \<and>
         dispatch ev b = b"
  using assms
  by (simp add: prev_click_def next_click_def keydown_def dispatch_def foldl_run_handler_not_loaded)

theorem navigation_ignored_before_ready_witness:
  "\<not> isLoaded (bindEvents example_document) \<and>
   prev_click (bindEvents example_document) = bindEvents example_document \<and>
   dispatch (Key ''ArrowRight'') (bindEvents example_document) = bindEvents example_document \<and>
   effects (dispatch ClickNext (bindEvents example_document)) = []"
proof -
  have h: "\<not> isLoaded (bindEvents example_document)"
    by (simp add: bindEvents_def example_document_def)
  have e: "effects (bindEvents example_document) = []"
    by (simp add: bindEvents_def example_document_def)
  from navigation_ignored_before_ready [OF h, of "''ArrowRight''" "Key ''ArrowRight''"]
    navigation_ignored_before_ready [OF h, of "''ArrowRight''" ClickNext] h e
  show ?thesis by simp
qed


section \<open>Widget initialisation\<close>

lemma updatePageShadows_frame:
  "updatePageShadows page b = b\<lparr>flipbook := flipbook (updatePageShadows page b)\<rparr>"
  by (simp add: updatePageShadows_def page_addClass_def pages_removeClass_def Let_def
        split: option.splits)

lemma updateUI_frame:
  "isLoaded (updateUI page b) = isLoaded b \<and> effects (updateUI page b) = effects b \<and>
   widget (updateUI page b) = widget b \<and> bound (updateUI page b) = bound b \<and>
   totalPages (updateUI page b) = totalPages b"
  unfolding updateUI_def Let_def
  by (subst updatePageShadows_frame, simp)+

lemma updateUI_buttons_eq:
  "prev_disabled (updateUI page b) = ((if page = 0 then turn_page (widget b) else page) \<le> 1) \<and>
   next_disabled (updateUI page b) = (int (totalPages b) \<le> (if page = 0 then turn_page (widget b) else page))"
  unfolding updateUI_def Let_def
  by (subst updatePageShadows_frame, simp)+


text \<open>
  Claim C8. \<^verbatim>\<open>initializeTurnJS\<close> checks for jQuery first and for the Turn.js plugin
  second; when one is absent it throws the error naming it and leaves the controller
  exactly as it was, so the widget is not initialised. Whenever it does not return
  normally the ready flag keeps its value. A ready flag that it turns on implies that
  both dependencies were present, the widget's initialisation was invoked and succeeded,
  and the function returned normally; and with both dependencies present and a widget
  that initialises, it returns with the flag on.
\<close>

theorem initializeTurnJS_prerequisites:
  "(\<not> jquery_loaded env \<longrightarrow>
      initializeTurnJS env b = (Threw (Error ''jQuery is not loaded''), b)) \<and>
   (jquery_loaded env \<and> \<not> turn_loaded env \<longrightarrow>
      initializeTurnJS env b = (Threw (Error ''Turn.js is not loaded''), b)) \<and>
   (fst (initializeTurnJS env b) \<noteq> Returned \<longrightarrow>
      isLoaded (snd (initializeTurnJS env b)) = isLoaded b) \<and>
   (\<not> isLoaded b \<and> isLoaded (snd (initializeTurnJS env b)) \<longrightarrow>
      jquery_loaded env \<and> turn_loaded env \<and>
      turn_init env = Inr (widget (snd (initializeTurnJS env b))) \<and>
      effects (snd (initializeTurnJS env b)) = effects b @ [WidgetInit] \<and>
      fst (initializeTurnJS env b) = Returned) \<and>
   (jquery_loaded env \<and> turn_loaded env \<and> turn_init env = Inr w \<longrightarrow>
      fst (initializeTurnJS env b) = Returned \<and> isLoaded (snd (initializeTurnJS env b)))"
  by (cases "turn_init env")
     (simp_all add: initializeTurnJS_def Let_def updateUI_frame)

theorem initializeTurnJS_prerequisites_witness:
  "\<not> jquery_loaded (example_environment\<lparr>jquery_loaded := False\<rparr>) \<and>
   initializeTurnJS (example_environment\<lparr>jquery_loaded := False\<rparr>) example_document
     = (Threw (Error ''jQuery is not loaded''), example_document) \<and>
   jquery_loaded (example_environment\<lparr>turn_loaded := False\<rparr>) \<and>
   \<not> turn_loaded (example_environment\<lparr>turn_loaded := False\<rparr>) \<and>
   initializeTurnJS (example_environment\<lparr>turn_loaded := False\<rparr>) example_document
     = (Threw (Error ''Turn.js is not loaded''), example_document) \<and>
   jquery_loaded example_environment \<and> turn_loaded example_environment \<and>
   turn_init example_environment = Inr \<lparr>turn_page = 1, turn_view = Some [0, 1]\<rparr> \<and>
   \<not> isLoaded example_document \<and>
   isLoaded (snd (initializeTurnJS example_environment example_document)) \<and>
   effects (snd (initializeTurnJS example_environment example_document)) = [WidgetInit]"
proof -
  have a: "\<not> jquery_loaded (example_environment\<lparr>jquery_loaded := False\<rparr>)" by simp
  have b: "jquery_loaded (example_environment\<lparr>turn_loaded := False\<rparr>)"
          "\<not> turn_loaded (example_environment\<lparr>turn_loaded := False\<rparr>)"
    by (simp_all add: example_environment_def)
  have c: "jquery_loaded example_environment" "turn_loaded example_environment"
          "turn_init example_environment = Inr \<lparr>turn_page = 1, turn_view = Some [0, 1]\<rparr>"
    by (simp_all add: example_environment_def)
  have d: "\<not> isLoaded example_document" "effects example_document = []"
    by (simp_all add: example_document_def)
  from initializeTurnJS_prerequisites
         [of "example_environment\<lparr>jquery_loaded := False\<rparr>" example_document] a
  have 1: "initializeTurnJS (example_environment\<lparr>jquery_loaded := False\<rparr>) example_document
     = (Threw (Error ''jQuery is not loaded''), example_document)" by blast
  from initializeTurnJS_prerequisites
         [of "example_environment\<lparr>turn_loaded := False\<rparr>" example_document] b
  have 2: "initializeTurnJS (example_environment\<lparr>turn_loaded := False\<rparr>) example_document
     = (Threw (Error ''Turn.js is not loaded''), example_document)" by blast
  from initializeTurnJS_prerequisites
         [of example_environment example_document "\<lparr>turn_page = 1, turn_view = Some [0, 1]\<rparr>"] c
  have 3: "isLoaded (snd (initializeTurnJS example_environment example_document))" by blast
  from initializeTurnJS_prerequisites [of example_environment example_document] d(1) 3
  have "effects (snd (initializeTurnJS example_environment example_document))
          = effects example_document @ [WidgetInit]" by blast
  with d have 4: "effects (snd (initializeTurnJS example_environment example_document)) = [WidgetInit]"
    by simp
  from a b c d(1) 1 2 3 4 show ?thesis by blast
qed

section \<open>Navigation buttons\<close>

text \<open>
  Claim C6. After \<^verbatim>\<open>updateUI(P)\<close> the previous button is disabled exactly when
  \<open>P \<le> 1\<close> and the next button exactly when \<open>P \<ge> totalPages\<close>, for every \<open>P\<close> that is
  the page the widget reports as current, and for every other argument except 0 (the
  number 0 is falsy, and \<^verbatim>\<open>updateUI\<close> then takes the widget's current page in its
  place). With more than one page in the book (the constructor fixes 21): at \<open>P = 1\<close>
  previous is disabled and next enabled, at \<open>P = totalPages\<close> next is disabled and
  previous enabled.
\<close>

theorem updateUI_buttons:
  "(P \<noteq> 0 \<or> turn_page (widget b) = P \<longrightarrow>
      prev_disabled (updateUI P b) = (P \<le> 1) \<and>
      next_disabled (updateUI P b) = (P \<ge> int (totalPages b))) \<and>
   (1 < totalPages b \<longrightarrow>
      prev_disabled (updateUI 1 b) \<and> \<not> next_disabled (updateUI 1 b) \<and>
      next_disabled (updateUI (int (totalPages b)) b) \<and>
      \<not> prev_disabled (updateUI (int (totalPages b)) b))"
  by (auto simp: updateUI_buttons_eq)

theorem updateUI_buttons_witness:
  "(1::int) \<noteq> 0 \<and> 1 < totalPages example_document \<and>
   prev_disabled (updateUI 1 example_document) = ((1::int) \<le> 1) \<and>
   \<not> next_disabled (updateUI 1 example_document) \<and>
   next_disabled (updateUI 21 example_document) \<and>
   \<not> prev_disabled (updateUI 21 example_document) \<and>
   turn_page (widget example_document) = 0 \<and>
   prev_disabled (updateUI 0 example_document) = ((0::int) \<le> 1)"
proof -
  have h: "(1::int) \<noteq> 0" "1 < totalPages example_document"
          "int (totalPages example_document) = 21" "turn_page (widget example_document) = 0"
    by (simp_all add: example_document_def)
  from updateUI_buttons [of 1 example_document] updateUI_buttons [of 0 example_document] h
  show ?thesis by simp
qed

section \<open>The preload loop\<close>

lemma with_pages_fields [simp]:
  "totalPages (with_pages env i k b) = totalPages b"
  "isLoaded (with_pages env i k b) = isLoaded b"
  "bound (with_pages env i k b) = bound b"
  "flipbook (with_pages env i k b) = flipbook b @ map (new_page env) [i..<k]"
  "effects (with_pages env i k b) = effects b @ concat (map page_actions [i..<k])"
  by (simp_all add: with_pages_def)

lemma with_pages_empty: "with_pages env i i b = b"
  by (simp add: with_pages_def)

lemma with_pages_Suc:
  "i \<le> k \<Longrightarrow> with_pages env k (Suc k) (with_pages env i k b) = with_pages env i (Suc k) b"
  by (simp add: with_pages_def)

lemma createPages_from_end: "createPages_from env (totalPages b) b = (Returned, b)"
  by (subst createPages_from.simps) simp

lemma createPages_from_resolved:
  assumes "i < totalPages b" "load_outcome env i = Resolved"
  shows "createPages_from env i b = createPages_from env (Suc i) (with_pages env i (Suc i) b)"
  using assms
  by (subst createPages_from.simps)
     (simp add: load_outcome_def new_image_def new_page_def with_pages_def page_actions_def Let_def)

lemma createPages_from_rejected:
  assumes "i < totalPages b" "load_outcome env i = Rejected e"
  shows "createPages_from env i b
           = (Threw e, b\<lparr>effects := effects b @ [LoadRequested i, LoadSettled i]\<rparr>)"
  using assms
  by (subst createPages_from.simps)
     (simp add: load_outcome_def new_image_def Let_def)

lemma createPages_from_pending:
  assumes "i < totalPages b" "load_outcome env i = Pending"
  shows "createPages_from env i b = (Suspended, b\<lparr>effects := effects b @ [LoadRequested i]\<rparr>)"
  using assms
  by (subst createPages_from.simps)
     (simp add: load_outcome_def new_image_def Let_def)

lemma createPages_from_prefix:
  assumes "i \<le> k" "k \<le> totalPages b" "\<forall>j. i \<le> j \<and> j < k \<longrightarrow> load_outcome env j = Resolved"
  shows "createPages_from env i b = createPages_from env k (with_pages env i k b)"
  using assms
proof (induction k rule: dec_induct)
  case base
  show ?case by (simp add: with_pages_empty)
next
  case (step n)
  then have "createPages_from env i b = createPages_from env n (with_pages env i n b)"
    by simp
  also have "\<dots> = createPages_from env (Suc n) (with_pages env n (Suc n) (with_pages env i n b))"
    using step.prems step.hyps by (intro createPages_from_resolved) simp_all
  also have "\<dots> = createPages_from env (Suc n) (with_pages env i (Suc n) b)"
    using step.hyps by (simp only: with_pages_Suc)
  finally show ?case .
qed


lemma showLoading_fields [simp]:
  "totalPages (showLoading b) = totalPages b" "isLoaded (showLoading b) = isLoaded b"
  "bound (showLoading b) = bound b" "flipbook (showLoading b) = flipbook b"
  "effects (showLoading b) = effects b"
  by (simp_all add: showLoading_def)

lemma showError_fields [simp]:
  "totalPages (showError e b) = totalPages b" "isLoaded (showError e b) = isLoaded b"
  "bound (showError e b) = bound b" "flipbook (showError e b) = flipbook b"
  "effects (showError e b) = effects b"
  by (cases e; simp add: showError_def)+

lemma rejection_is_timeout_or_failure:
  assumes "settled ls \<in> {Pending, Resolved,
             Rejected (Error (''Image load timeout: '' @ img_src img)),
             Rejected (Error (''Failed to load image: '' @ img_src img))}"
  shows "settled (run_events img evs ls) \<in> {Pending, Resolved,
             Rejected (Error (''Image load timeout: '' @ img_src img)),
             Rejected (Error (''Failed to load image: '' @ img_src img))}"
  using assms unfolding run_events_def
proof (induction evs arbitrary: ls)
  case Nil
  then show ?case by simp
next
  case (Cons ev evs)
  have "settled (deliver img ls ev) \<in> {Pending, Resolved,
             Rejected (Error (''Image load timeout: '' @ img_src img)),
             Rejected (Error (''Failed to load image: '' @ img_src img))}"
    using Cons.prems
    by (cases ev)
       (auto simp: deliver_def onload_def onerror_def on_timeout_def resolve_def reject_def
          clearTimeout_def split: timer.splits)
  from Cons.IH [OF this] show ?case by simp
qed

lemma load_outcome_rejected:
  assumes "load_outcome env k = Rejected e"
  shows "e = Error (''Image load timeout: '' @ resolve_url env (imagePath k)) \<or>
         e = Error (''Failed to load image: '' @ resolve_url env (imagePath k))"
proof -
  have "settled (loadImage (new_image env k)) \<in> {Pending, Resolved,
             Rejected (Error (''Image load timeout: '' @ img_src (new_image env k))),
             Rejected (Error (''Failed to load image: '' @ img_src (new_image env k)))}"
    by (cases "img_complete (new_image env k)")
       (simp_all add: loadImage_complete loadImage_incomplete)
  from rejection_is_timeout_or_failure [OF this, of "events (image_loads env k)"] assms
  show ?thesis by (auto simp: load_outcome_def) (simp_all add: new_image_def)
qed

lemma createPages_returns:
  assumes "\<forall>j<totalPages b. load_outcome env j = Resolved"
  shows "createPages env b = (Returned, with_pages env 0 (totalPages b) b)"
proof -
  have "createPages env b = createPages_from env (totalPages b) (with_pages env 0 (totalPages b) b)"
    unfolding createPages_def using assms by (intro createPages_from_prefix) simp_all
  also have "\<dots> = (Returned, with_pages env 0 (totalPages b) b)"
    using createPages_from_end [of env "with_pages env 0 (totalPages b) b"] by simp
  finally show ?thesis .
qed

lemma createPages_throws:
  assumes "k < totalPages b" "\<forall>j<k. load_outcome env j = Resolved" "load_outcome env k = Rejected e"
  shows "createPages env b
           = (Threw e, (with_pages env 0 k b)
                \<lparr>effects := effects (with_pages env 0 k b) @ [LoadRequested k, LoadSettled k]\<rparr>)"
proof -
  have "createPages env b = createPages_from env k (with_pages env 0 k b)"
    unfolding createPages_def using assms by (intro createPages_from_prefix) simp_all
  also have "\<dots> = (Threw e, (with_pages env 0 k b)
                \<lparr>effects := effects (with_pages env 0 k b) @ [LoadRequested k, LoadSettled k]\<rparr>)"
    using assms by (intro createPages_from_rejected) simp_all
  finally show ?thesis .
qed

lemma page_actions_set:
  "set (concat (map page_actions [i..<k])) =
     (\<Union>j\<in>{i..<k}. {LoadRequested j, LoadSettled j, PageAppended j})"
  by (auto simp: page_actions_def)

text \<open>
  Claim C2. For every page count, if the promise of every image load resolves, then
  \<^verbatim>\<open>createPages\<close> returns normally, having appended to the container exactly one page
  element per index, in the order 0, 1, ..., N-1, each holding the image of its index
  (its \<^verbatim>\<open>src\<close> attribute is the path of that index);
  a container that was empty then holds exactly N elements, the element at position
  \<open>i\<close> being the page of index \<open>i\<close>. The effects occur in the order request,
  settlement, append for index 0, then the same for index 1, and so on: a page is
  appended only after its load has settled, and the next load is requested only after
  that.
\<close>

theorem createPages_all_loaded:
  assumes "\<forall>j<totalPages b. load_outcome env j = Resolved"
  shows "fst (createPages env b) = Returned \<and>
         flipbook (snd (createPages env b)) = flipbook b @ map (new_page env) [0..<totalPages b] \<and>
         effects (snd (createPages env b))
           = effects b @ concat (map (\<lambda>i. [LoadRequested i, LoadSettled i, PageAppended i])
                                   [0..<totalPages b]) \<and>
         (flipbook b = [] \<longrightarrow>
            length (flipbook (snd (createPages env b))) = totalPages b \<and>
            (\<forall>i<totalPages b.
               flipbook (snd (createPages env b)) ! i = new_page env i \<and>
               classes (flipbook (snd (createPages env b)) ! i) = [''page''] \<and>
               map_option src_attr (child_img (flipbook (snd (createPages env b)) ! i))
                 = Some (imagePath i) \<and>
               map_option img_src (child_img (flipbook (snd (createPages env b)) ! i))
                 = Some (resolve_url env (imagePath i))))"
proof -
  have "page_actions = (\<lambda>i. [LoadRequested i, LoadSettled i, PageAppended i])"
    by (rule ext) (simp add: page_actions_def)
  with createPages_returns [OF assms] show ?thesis
    by (simp add: new_page_def new_image_def)
qed


theorem createPages_all_loaded_witness:
  "(\<forall>j. load_outcome example_environment j = Resolved) \<and>
   fst (createPages example_environment example_document) = Returned \<and>
   length (flipbook (snd (createPages example_environment example_document))) = 21 \<and>
   map_option src_attr (child_img (flipbook (snd (createPages example_environment example_document)) ! 20))
     = Some ''individual_pages/page_020.jpg''"
proof -
  have h: "\<forall>j. load_outcome example_environment j = Resolved"
    by (simp add: load_outcome_def example_environment_def new_image_def loadImage_def
          run_events_def deliver_def onload_def resolve_def clearTimeout_def)
  have d: "totalPages example_document = 21" "flipbook example_document = []"
    by (simp_all add: example_document_def)
  have p: "imagePath 20 = ''individual_pages/page_020.jpg''" by code_simp
  from h have "\<forall>j<totalPages example_document. load_outcome example_environment j = Resolved"
    by simp
  note t = createPages_all_loaded [OF this]
  from t have r1: "fst (createPages example_environment example_document) = Returned"
    by blast
  from t d(2)
  have r2: "length (flipbook (snd (createPages example_environment example_document)))
              = totalPages example_document \<and>
    (\<forall>i<totalPages example_document. map_option src_attr
        (child_img (flipbook (snd (createPages example_environment example_document)) ! i))
          = Some (imagePath i))"
    by blast
  from r2 d(1) have "map_option src_attr
        (child_img (flipbook (snd (createPages example_environment example_document)) ! 20))
          = Some (imagePath 20)"
    by simp
  with p h r1 r2 d(1) show ?thesis by simp
qed

lemma init_on_failure:
  assumes "createPages env (showLoading b) = (Threw e, b')"
  shows "init env b = showError e b'"
  using assms by (simp add: init_def)

text \<open>
  Claim C4. Let \<open>k\<close> be the first index whose image load is rejected, with error \<open>e\<close>
  (which is the timeout error or the load-failure error, naming the resolved URL of the
  image of index \<open>k\<close>).
  Then \<^verbatim>\<open>createPages\<close> throws \<open>e\<close>: exactly the pages of the indices below \<open>k\<close> have
  been appended, and after the request and settlement of load \<open>k\<close> there is no further
  effect, so no page of an index from \<open>k\<close> on is appended and no load of an index above
  \<open>k\<close> is requested. \<^verbatim>\<open>init\<close> catches \<open>e\<close> and shows it: the ready flag and the bound
  handlers are as before, and the widget is not initialised. For the controller built
  by the constructor the ready flag is false and no handler has been bound.
\<close>

theorem createPages_first_failure:
  assumes "k < totalPages b"
      and "\<forall>j<k. load_outcome env j = Resolved"
      and "load_outcome env k = Rejected e"
  shows "fst (createPages env b) = Threw e \<and>
         (e = Error (''Image load timeout: '' @ resolve_url env (imagePath k)) \<or>
          e = Error (''Failed to load image: '' @ resolve_url env (imagePath k))) \<and>
         flipbook (snd (createPages env b)) = flipbook b @ map (new_page env) [0..<k] \<and>
         effects (snd (createPages env b))
           = effects b @ concat (map page_actions [0..<k]) @ [LoadRequested k, LoadSettled k] \<and>
         (\<forall>j. k \<le> j \<longrightarrow>
            PageAppended j \<notin> set (concat (map page_actions [0..<k]) @ [LoadRequested k, LoadSettled k])) \<and>
         (\<forall>j. k < j \<longrightarrow>
            LoadRequested j \<notin> set (concat (map page_actions [0..<k]) @ [LoadRequested k, LoadSettled k])) \<and>
         init env b = showError e (snd (createPages env (showLoading b))) \<and>
         isLoaded (init env b) = isLoaded b \<and>
         bound (init env b) = bound b \<and>
         effects (init env b)
           = effects b @ concat (map page_actions [0..<k]) @ [LoadRequested k, LoadSettled k] \<and>
         WidgetInit \<notin> set (concat (map page_actions [0..<k]) @ [LoadRequested k, LoadSettled k]) \<and>
         (totalPages b = 21 \<longrightarrow>
            \<not> isLoaded (TurnJSBook env b) \<and> bound (TurnJSBook env b) = bound b)"
proof -
  note thrown = createPages_throws [OF assms]
  have shown: "createPages env (showLoading b)
      = (Threw e, (with_pages env 0 k (showLoading b))
           \<lparr>effects := effects (with_pages env 0 k (showLoading b)) @ [LoadRequested k, LoadSettled k]\<rparr>)"
    using assms by (intro createPages_throws) simp_all
  have init: "init env b = showError e (snd (createPages env (showLoading b)))"
    using init_on_failure [OF shown] shown by simp
  have log: "PageAppended j \<notin> set (concat (map page_actions [0..<k]) @ [LoadRequested k, LoadSettled k])"
    if "k \<le> j" for j
    using that by (auto simp: page_actions_def)
  have log2: "LoadRequested j \<notin> set (concat (map page_actions [0..<k]) @ [LoadRequested k, LoadSettled k])"
    if "k < j" for j
    using that by (auto simp: page_actions_def)
  have log3: "WidgetInit \<notin> set (concat (map page_actions [0..<k]) @ [LoadRequested k, LoadSettled k])"
    by (auto simp: page_actions_def)
  have constructed: "\<not> isLoaded (TurnJSBook env b) \<and> bound (TurnJSBook env b) = bound b"
    if "totalPages b = 21"
  proof -
    let ?c = "b\<lparr>totalPages := 21, isLoaded := False\<rparr>"
    have "createPages env (showLoading ?c)
      = (Threw e, (with_pages env 0 k (showLoading ?c))
           \<lparr>effects := effects (with_pages env 0 k (showLoading ?c)) @ [LoadRequested k, LoadSettled k]\<rparr>)"
      using assms that by (intro createPages_throws) simp_all
    from init_on_failure [OF this] show ?thesis
      by (simp add: TurnJSBook_def)
  qed
  show ?thesis
    using load_outcome_rejected [OF assms(3)] log log2 log3 constructed
    by (simp add: thrown init shown)
qed


theorem createPages_first_failure_witness:
  "2 < totalPages example_document \<and>
   load_outcome example_failing_environment 0 = Resolved \<and>
   load_outcome example_failing_environment 1 = Resolved \<and>
   load_outcome example_failing_environment 2
     = Rejected (Error ''Failed to load image: http://localhost/individual_pages/page_002.jpg'') \<and>
   fst (createPages example_failing_environment example_document)
     = Threw (Error ''Failed to load image: http://localhost/individual_pages/page_002.jpg'') \<and>
   length (flipbook (snd (createPages example_failing_environment example_document))) = 2 \<and>
   effects (init example_failing_environment example_document)
     = [LoadRequested 0, LoadSettled 0, PageAppended 0,
        LoadRequested 1, LoadSettled 1, PageAppended 1,
        LoadRequested 2, LoadSettled 2] \<and>
   \<not> isLoaded (TurnJSBook example_failing_environment example_document) \<and>
   bound (TurnJSBook example_failing_environment example_document) = []"
proof -
  have d: "totalPages example_document = 21" "flipbook example_document = []"
    "bound example_document = []" "effects example_document = []"
    by (simp_all add: example_document_def)
  have h1: "2 < totalPages example_document" by (simp add: d)
  have ok: "load_outcome example_failing_environment j = Resolved" if "j < 2" for j
    using that
    by (simp add: load_outcome_def example_failing_environment_def new_image_def loadImage_def
          run_events_def deliver_def onload_def resolve_def clearTimeout_def)
  then have h2: "\<forall>j<2. load_outcome example_failing_environment j = Resolved" by simp
  have p: "imagePath 2 = ''individual_pages/page_002.jpg''" by code_simp
  have "load_outcome example_failing_environment 2
          = Rejected (Error (''Failed to load image: '' @ ''http://localhost/'' @ imagePath 2))"
    by (simp add: load_outcome_def example_failing_environment_def new_image_def loadImage_def
          run_events_def deliver_def onerror_def reject_def clearTimeout_def)
  with p have h3: "load_outcome example_failing_environment 2
          = Rejected (Error ''Failed to load image: http://localhost/individual_pages/page_002.jpg'')"
    by simp
  note t = createPages_first_failure [OF h1 h2 h3]
  from t have r1: "fst (createPages example_failing_environment example_document)
     = Threw (Error ''Failed to load image: http://localhost/individual_pages/page_002.jpg'')"
    by blast
  from t have "flipbook (snd (createPages example_failing_environment example_document))
     = flipbook example_document @ map (new_page example_failing_environment) [0..<2]"
    by blast
  then have r2: "length (flipbook (snd (createPages example_failing_environment example_document))) = 2"
    by (simp add: d)
  from t have "effects (init example_failing_environment example_document)
           = effects example_document @ concat (map page_actions [0..<2])
               @ [LoadRequested 2, LoadSettled 2]"
    by blast
  moreover have "[0..<2] = [0, Suc 0]" by (simp add: upt_rec)
  ultimately have r3: "effects (init example_failing_environment example_document)
     = [LoadRequested 0, LoadSettled 0, PageAppended 0,
        LoadRequested 1, LoadSettled 1, PageAppended 1,
        LoadRequested 2, LoadSettled 2]"
    by (simp add: d page_actions_def)
  from t d(1) have "\<not> isLoaded (TurnJSBook example_failing_environment example_document) \<and>
      bound (TurnJSBook example_failing_environment example_document) = bound example_document"
    by blast
  then have r4: "\<not> isLoaded (TurnJSBook example_failing_environment example_document)"
    "bound (TurnJSBook example_failing_environment example_document) = []"
    by (simp_all add: d)
  from h1 ok [of 0] ok [of 1] h3 r1 r2 r3 r4 show ?thesis by simp
qed

section \<open>Selections and classes\<close>

lemma length_on_selected [simp]: "length (on_selected f sel es) = length es"
  by (simp add: on_selected_def)

lemma nth_on_selected:
  "i < length es \<Longrightarrow> on_selected f sel es ! i = (if i \<in> set sel then f (es ! i) else es ! i)"
  by (simp add: on_selected_def)

lemma nth_addClass:
  "i < length es \<Longrightarrow> addClass c sel es ! i = (if i \<in> set sel then add_class c (es ! i) else es ! i)"
  by (simp add: addClass_def nth_on_selected)

lemma nth_removeClass:
  "i < length es \<Longrightarrow>
     removeClass cs sel es ! i = (if i \<in> set sel then remove_classes cs (es ! i) else es ! i)"
  by (simp add: removeClass_def nth_on_selected)

lemma length_addClass [simp]: "length (addClass c sel es) = length es"
  by (simp add: addClass_def)

lemma length_removeClass [simp]: "length (removeClass cs sel es) = length es"
  by (simp add: removeClass_def)

lemma hasClass_add_class: "hasClass c (add_class c' e) = (c = c' \<or> hasClass c e)"
  by (auto simp: hasClass_def add_class_def)

lemma hasClass_remove_classes: "hasClass c (remove_classes cs e) = (c \<notin> set cs \<and> hasClass c e)"
  by (auto simp: hasClass_def remove_classes_def)

lemma find_class_distinct: "distinct (find_class c es)"
  by (simp add: find_class_def)

lemma find_class_set: "set (find_class c es) = {i. i < length es \<and> hasClass c (es ! i)}"
  by (auto simp: find_class_def)

lemma find_class_nth_bound: "k < length (find_class c es) \<Longrightarrow> find_class c es ! k < length es"
  using find_class_set [of c es] nth_mem [of k "find_class c es"] by blast

lemma find_class_cong:
  assumes "length es' = length es"
      and "\<And>i. i < length es \<Longrightarrow> hasClass c (es' ! i) = hasClass c (es ! i)"
  shows "find_class c es' = find_class c es"
  unfolding find_class_def using assms by (auto intro: filter_cong)

lemma eq_jq_subset: "set (eq_jq i sel) \<subseteq> set sel"
  by (auto simp: eq_jq_def Let_def)

lemma eq_jq_nonneg:
  "0 \<le> i \<Longrightarrow> eq_jq i sel = (if nat i < length sel then [sel ! nat i] else [])"
  by (auto simp: eq_jq_def Let_def)

lemma find_class_on_selected:
  assumes "set sel \<subseteq> set (find_class c es)"
      and "\<And>e. hasClass c e \<Longrightarrow> hasClass c (f e)"
  shows "find_class c (on_selected f sel es) = find_class c es"
proof (rule find_class_cong)
  show "length (on_selected f sel es) = length es" by simp
next
  fix i assume i: "i < length es"
  show "hasClass c (on_selected f sel es ! i) = hasClass c (es ! i)"
  proof (cases "i \<in> set sel")
    case True
    with assms(1) have "hasClass c (es ! i)" by (auto simp: find_class_set)
    with assms(2) True i show ?thesis by (simp add: nth_on_selected)
  next
    case False
    with i show ?thesis by (simp add: nth_on_selected)
  qed
qed

lemma length_page_elements: "length (page_elements b) = length (find_class ''page'' (flipbook b))"
  by (simp add: page_elements_def)

lemma page_elements_pages_removeClass:
  assumes "''page'' \<notin> set cs"
  shows "page_elements (pages_removeClass cs b) = map (remove_classes cs) (page_elements b)"
proof -
  let ?es = "flipbook b" and ?ps = "find_class ''page'' (flipbook b)"
  have same: "find_class ''page'' (removeClass cs ?ps ?es) = ?ps"
    unfolding removeClass_def using assms
    by (intro find_class_on_selected) (simp_all add: hasClass_remove_classes)
  have "removeClass cs ?ps ?es ! i = remove_classes cs (?es ! i)" if "i \<in> set ?ps" for i
    using that by (simp add: nth_removeClass find_class_set)
  then show ?thesis
    by (simp add: page_elements_def pages_removeClass_def same)
qed

lemma eq_jq_member:
  assumes "distinct sel" "k < length sel"
  shows "(sel ! k \<in> set (eq_jq index sel))
           = (0 \<le> index + (if index < 0 then int (length sel) else 0) \<and>
              k = nat (index + (if index < 0 then int (length sel) else 0)))"
  using assms by (auto simp: eq_jq_def Let_def nth_eq_iff_index_eq)

lemma page_elements_page_addClass_any:
  "page_elements (page_addClass c index b)
     = (let xs = page_elements b;
            j = index + (if index < 0 then int (length xs) else 0)
        in if 0 \<le> j then xs[nat j := add_class c (xs ! nat j)] else xs)"
proof -
  let ?es = "flipbook b" and ?ps = "find_class ''page'' (flipbook b)"
  let ?sel = "eq_jq index ?ps"
  let ?j = "index + (if index < 0 then int (length ?ps) else 0)"
  let ?rhs = "if 0 \<le> ?j
              then (page_elements b)[nat ?j := add_class c (page_elements b ! nat ?j)]
              else page_elements b"
  have same: "find_class ''page'' (addClass c ?sel ?es) = ?ps"
    unfolding addClass_def
    by (intro find_class_on_selected) (simp_all add: eq_jq_subset hasClass_add_class)
  have "page_elements (page_addClass c index b) = ?rhs"
  proof (rule nth_equalityI)
    show "length (page_elements (page_addClass c index b)) = length ?rhs"
      by (simp add: page_elements_def page_addClass_def same)
  next
    fix k assume "k < length (page_elements (page_addClass c index b))"
    then have k: "k < length ?ps"
      by (simp add: page_elements_def page_addClass_def same)
    then have bound: "?ps ! k < length ?es" by (rule find_class_nth_bound)
    have sel: "(?ps ! k \<in> set ?sel) = (0 \<le> ?j \<and> k = nat ?j)"
      using k find_class_distinct [of "''page''" ?es] by (rule eq_jq_member [rotated])
    have lhs: "page_elements (page_addClass c index b) ! k
                 = (if 0 \<le> ?j \<and> k = nat ?j then add_class c (?es ! (?ps ! k)) else ?es ! (?ps ! k))"
      using k bound sel
      by (simp add: page_elements_def page_addClass_def same nth_addClass)
    have rhs: "?rhs ! k
                 = (if 0 \<le> ?j \<and> k = nat ?j then add_class c (?es ! (?ps ! k)) else ?es ! (?ps ! k))"
      using k by (simp add: page_elements_def nth_list_update)
    from lhs rhs show "page_elements (page_addClass c index b) ! k = ?rhs ! k" by simp
  qed
  then show ?thesis by (simp add: Let_def length_page_elements)
qed

lemma page_elements_page_addClass:
  assumes "0 \<le> index"
  shows "page_elements (page_addClass c index b)
           = (page_elements b)[nat index := add_class c (page_elements b ! nat index)]"
  using assms by (simp add: page_elements_page_addClass_any Let_def)

lemma widget_pages_removeClass [simp]: "widget (pages_removeClass cs b) = widget b"
  by (simp add: pages_removeClass_def)

lemma widget_page_addClass [simp]: "widget (page_addClass c index b) = widget b"
  by (simp add: page_addClass_def)

lemma length_page_elements_page_addClass:
  "0 \<le> index \<Longrightarrow> length (page_elements (page_addClass c index b)) = length (page_elements b)"
  by (simp add: page_elements_page_addClass)

lemma hasClass_page_addClass:
  assumes "0 \<le> index" "k < length (page_elements b)"
  shows "hasClass c (page_elements (page_addClass c' index b) ! k)
           = (hasClass c (page_elements b ! k) \<or> (c = c' \<and> k = nat index))"
proof (cases "k = nat index")
  case True
  with assms show ?thesis
    by (simp add: page_elements_page_addClass hasClass_add_class) blast
next
  case False
  with assms show ?thesis
    by (simp add: page_elements_page_addClass)
qed

lemma length_page_elements_cleared:
  "length (page_elements (pages_removeClass [''left-shadow'', ''right-shadow''] b))
     = length (page_elements b)"
  by (simp add: page_elements_pages_removeClass)

lemma hasClass_cleared:
  assumes "k < length (page_elements b)"
  shows "hasClass c (page_elements (pages_removeClass [''left-shadow'', ''right-shadow''] b) ! k)
           = (c \<noteq> ''left-shadow'' \<and> c \<noteq> ''right-shadow'' \<and> hasClass c (page_elements b ! k))"
  using assms
  by (auto simp: page_elements_pages_removeClass hasClass_remove_classes)

lemma updatePageShadows_no_view:
  assumes "turn_view (widget b) = None \<or> turn_view (widget b) = Some []"
  shows "updatePageShadows page b = pages_removeClass [''left-shadow'', ''right-shadow''] b"
  using assms by (auto simp: updatePageShadows_def Let_def)

lemma updatePageShadows_two:
  assumes "turn_view (widget b) = Some (l # r # rest)"
  shows "updatePageShadows page b =
     (let b1 = pages_removeClass [''left-shadow'', ''right-shadow''] b;
          b2 = (if page > 1 \<and> l - 1 \<ge> 0 then page_addClass ''left-shadow'' (l - 1) b1 else b1)
      in if r - 1 \<ge> 0 then page_addClass ''right-shadow'' (r - 1) b2 else b2)"
  using assms by (simp add: updatePageShadows_def Let_def)

lemma updatePageShadows_one:
  assumes "turn_view (widget b) = Some [v]"
  shows "updatePageShadows page b =
     (let b1 = pages_removeClass [''left-shadow'', ''right-shadow''] b
      in if page = 1 then page_addClass ''right-shadow'' (v - 1) b1
         else page_addClass ''left-shadow'' (v - 1) b1)"
  using assms by (simp add: updatePageShadows_def Let_def)

lemma shadows_no_view:
  assumes "turn_view (widget b) = None \<or> turn_view (widget b) = Some []"
      and "k < length (page_elements b)"
  shows "length (page_elements (updatePageShadows page b)) = length (page_elements b)"
    and "\<not> hasClass ''left-shadow'' (page_elements (updatePageShadows page b) ! k)"
    and "\<not> hasClass ''right-shadow'' (page_elements (updatePageShadows page b) ! k)"
  using assms(2)
  by (simp_all add: updatePageShadows_no_view [OF assms(1)] length_page_elements_cleared
        hasClass_cleared)

lemma shadows_two:
  assumes "turn_view (widget b) = Some (l # r # rest)"
      and "k < length (page_elements b)"
  shows "length (page_elements (updatePageShadows page b)) = length (page_elements b)"
    and "hasClass ''left-shadow'' (page_elements (updatePageShadows page b) ! k)
           = (page > 1 \<and> 1 \<le> l \<and> k = nat (l - 1))"
    and "hasClass ''right-shadow'' (page_elements (updatePageShadows page b) ! k)
           = (1 \<le> r \<and> k = nat (r - 1))"
  using assms(2)
  by (auto simp: updatePageShadows_two [OF assms(1)] Let_def length_page_elements_cleared
        length_page_elements_page_addClass hasClass_page_addClass hasClass_cleared)

lemma shadows_one:
  assumes "turn_view (widget b) = Some [v]" and "1 \<le> v"
      and "k < length (page_elements b)"
  shows "length (page_elements (updatePageShadows page b)) = length (page_elements b)"
    and "hasClass ''left-shadow'' (page_elements (updatePageShadows page b) ! k)
           = (page \<noteq> 1 \<and> k = nat (v - 1))"
    and "hasClass ''right-shadow'' (page_elements (updatePageShadows page b) ! k)
           = (page = 1 \<and> k = nat (v - 1))"
  using assms(2,3)
  by (simp_all add: updatePageShadows_one [OF assms(1)] Let_def length_page_elements_cleared
        length_page_elements_page_addClass hasClass_page_addClass hasClass_cleared)


lemma length_page_elements_page_addClass_any:
  "length (page_elements (page_addClass c index b)) = length (page_elements b)"
  by (simp add: page_elements_page_addClass_any Let_def)

lemma length_page_elements_updatePageShadows:
  "length (page_elements (updatePageShadows page b)) = length (page_elements b)"
  by (simp add: updatePageShadows_def Let_def length_page_elements_page_addClass_any
        length_page_elements_cleared split: option.splits)

lemma hasClass_page_addClass_other:
  assumes "c \<noteq> c'" "k < length (page_elements b)"
  shows "hasClass c (page_elements (page_addClass c' index b) ! k) = hasClass c (page_elements b ! k)"
proof -
  have "hasClass c ((page_elements b)[j := add_class c' (page_elements b ! j)] ! k)
          = hasClass c (page_elements b ! k)" for j
    using assms by (cases "k = j") (simp_all add: hasClass_add_class)
  then show ?thesis
    by (simp add: page_elements_page_addClass_any Let_def)
qed

lemma other_classes_kept:
  assumes "c \<noteq> ''left-shadow''" "c \<noteq> ''right-shadow''"
  shows "\<forall>k<length (page_elements b).
           hasClass c (page_elements (updatePageShadows page b) ! k) = hasClass c (page_elements b ! k)"
proof -
  define kept where "kept = (\<lambda>b'. length (page_elements b') = length (page_elements b) \<and>
     (\<forall>k<length (page_elements b).
        hasClass c (page_elements b' ! k) = hasClass c (page_elements b ! k)))"
  have start: "kept (pages_removeClass [''left-shadow'', ''right-shadow''] b)"
    using assms by (simp add: kept_def length_page_elements_cleared hasClass_cleared)
  have step: "kept (page_addClass c' index b')"
    if "kept b'" "c' = ''left-shadow'' \<or> c' = ''right-shadow''" for c' index b'
  proof -
    from that(2) assms have "c \<noteq> c'" by auto
    with that(1) show ?thesis
      by (simp add: kept_def length_page_elements_page_addClass_any hasClass_page_addClass_other)
  qed
  have "kept (updatePageShadows page b)"
    by (simp add: updatePageShadows_def Let_def start step split: option.splits)
  then show ?thesis by (simp add: kept_def)
qed

lemma flipbook_updatePageShadows_buttons:
  "flipbook (updatePageShadows page (b\<lparr>prev_disabled := x, next_disabled := y\<rparr>))
     = flipbook (updatePageShadows page b)"
  by (simp add: updatePageShadows_def page_addClass_def pages_removeClass_def Let_def
        split: option.splits)

lemma page_elements_turned:
  assumes "P \<noteq> 0 \<or> turn_page (widget b) = P"
  shows "page_elements (turned P view b) = page_elements (updatePageShadows P b)"
proof -
  have "(if P = 0 then turn_page (widget b) else P) = P" using assms by auto
  then have "flipbook (turned P view b) = flipbook (updatePageShadows P b)"
    by (simp add: turned_def updateUI_def Let_def flipbook_updatePageShadows_buttons)
  then show ?thesis by (simp add: page_elements_def)
qed

text \<open>
  Claim C1. When the widget completes a transition to page \<open>P\<close> (the \<^verbatim>\<open>turned\<close> callback),
  the shadows are those that \<^verbatim>\<open>updatePageShadows(P)\<close> computes from the viewport the
  widget reports; the page elements stay the same in number and keep every class other
  than the two shadow classes. With a viewport of two (or more) entries \<open>l, r\<close>: a page
  has right-shadow afterwards exactly when it is the page \<open>r\<close> (and \<open>r \<ge> 1\<close>), whatever
  \<open>P\<close> is, and it has left-shadow exactly when it is the page \<open>l\<close> (and \<open>l \<ge> 1\<close>) and
  \<open>P > 1\<close>; so the right-hand viewport page always gets right-shadow, the left-hand one
  gets left-shadow only if \<open>P > 1\<close>, and no other page gets either. With a viewport of the
  single page \<open>v\<close>: a page has right-shadow exactly when \<open>P = 1\<close> and it is the page \<open>v\<close>,
  and left-shadow exactly when \<open>P \<noteq> 1\<close> and it is the page \<open>v\<close>; so at \<open>P = 1\<close> that page
  has only right-shadow, and at \<open>P = totalPages\<close>, in a book of more than one page (the
  constructor fixes 21), it has only left-shadow.
\<close>

theorem updatePageShadows_rule:
  "(P \<noteq> 0 \<or> turn_page (widget b) = P \<longrightarrow>
      page_elements (turned P view b) = page_elements (updatePageShadows P b)) \<and>
   length (page_elements (updatePageShadows P b)) = length (page_elements b) \<and>
   (\<forall>k<length (page_elements b). \<forall>c.
      c \<noteq> ''left-shadow'' \<and> c \<noteq> ''right-shadow'' \<longrightarrow>
      hasClass c (page_elements (updatePageShadows P b) ! k) = hasClass c (page_elements b ! k)) \<and>
   (turn_view (widget b) = Some (l # r # rest) \<longrightarrow>
      (\<forall>k<length (page_elements b).
         hasClass ''right-shadow'' (page_elements (updatePageShadows P b) ! k)
           = (1 \<le> r \<and> k = nat (r - 1)) \<and>
         hasClass ''left-shadow'' (page_elements (updatePageShadows P b) ! k)
           = (P > 1 \<and> 1 \<le> l \<and> k = nat (l - 1))) \<and>
      (1 \<le> r \<and> r \<le> int (length (page_elements b)) \<longrightarrow>
         hasClass ''right-shadow'' (page_elements (updatePageShadows P b) ! nat (r - 1))) \<and>
      (1 \<le> l \<and> l \<le> int (length (page_elements b)) \<longrightarrow>
         hasClass ''left-shadow'' (page_elements (updatePageShadows P b) ! nat (l - 1)) = (P > 1))) \<and>
   (turn_view (widget b) = Some [v] \<and> 1 \<le> v \<longrightarrow>
      (\<forall>k<length (page_elements b).
         hasClass ''right-shadow'' (page_elements (updatePageShadows P b) ! k)
           = (P = 1 \<and> k = nat (v - 1)) \<and>
         hasClass ''left-shadow'' (page_elements (updatePageShadows P b) ! k)
           = (P \<noteq> 1 \<and> k = nat (v - 1)))) \<and>
   (turn_view (widget b) = Some [v] \<and> 1 \<le> v \<and> v \<le> int (length (page_elements b)) \<longrightarrow>
      (P = 1 \<longrightarrow>
         hasClass ''right-shadow'' (page_elements (updatePageShadows P b) ! nat (v - 1)) \<and>
         \<not> hasClass ''left-shadow'' (page_elements (updatePageShadows P b) ! nat (v - 1))) \<and>
      (P = int (totalPages b) \<and> totalPages b \<noteq> 1 \<longrightarrow>
         hasClass ''left-shadow'' (page_elements (updatePageShadows P b) ! nat (v - 1)) \<and>
         \<not> hasClass ''right-shadow'' (page_elements (updatePageShadows P b) ! nat (v - 1))))"
proof -
  have kept: "\<forall>k<length (page_elements b). \<forall>c.
      c \<noteq> ''left-shadow'' \<and> c \<noteq> ''right-shadow'' \<longrightarrow>
      hasClass c (page_elements (updatePageShadows P b) ! k) = hasClass c (page_elements b ! k)"
    using other_classes_kept [of _ b P] by blast
  have two: "\<forall>k<length (page_elements b).
         hasClass ''right-shadow'' (page_elements (updatePageShadows P b) ! k)
           = (1 \<le> r \<and> k = nat (r - 1)) \<and>
         hasClass ''left-shadow'' (page_elements (updatePageShadows P b) ! k)
           = (P > 1 \<and> 1 \<le> l \<and> k = nat (l - 1))"
    if "turn_view (widget b) = Some (l # r # rest)"
    using shadows_two(2,3) [OF that] by blast
  have two_r: "hasClass ''right-shadow'' (page_elements (updatePageShadows P b) ! nat (r - 1))"
    if "turn_view (widget b) = Some (l # r # rest)" "1 \<le> r" "r \<le> int (length (page_elements b))"
  proof -
    from that have "nat (r - 1) < length (page_elements b)" by simp
    from shadows_two(3) [OF that(1) this] that(2) show ?thesis by simp
  qed
  have two_l: "hasClass ''left-shadow'' (page_elements (updatePageShadows P b) ! nat (l - 1)) = (P > 1)"
    if "turn_view (widget b) = Some (l # r # rest)" "1 \<le> l" "l \<le> int (length (page_elements b))"
  proof -
    from that have "nat (l - 1) < length (page_elements b)" by simp
    from shadows_two(2) [OF that(1) this] that(2) show ?thesis by simp
  qed
  have one_all: "\<forall>k<length (page_elements b).
         hasClass ''right-shadow'' (page_elements (updatePageShadows P b) ! k)
           = (P = 1 \<and> k = nat (v - 1)) \<and>
         hasClass ''left-shadow'' (page_elements (updatePageShadows P b) ! k)
           = (P \<noteq> 1 \<and> k = nat (v - 1))"
    if "turn_view (widget b) = Some [v]" "1 \<le> v"
    using shadows_one(2,3) [OF that] by blast
  have one: "hasClass ''right-shadow'' (page_elements (updatePageShadows P b) ! nat (v - 1)) = (P = 1) \<and>
             hasClass ''left-shadow'' (page_elements (updatePageShadows P b) ! nat (v - 1)) = (P \<noteq> 1)"
    if "turn_view (widget b) = Some [v]" "1 \<le> v" "v \<le> int (length (page_elements b))"
  proof -
    from that have "nat (v - 1) < length (page_elements b)" by simp
    from shadows_one(2,3) [OF that(1,2) this] show ?thesis by simp
  qed
  have last: "P \<noteq> 1" if "P = int (totalPages b)" "totalPages b \<noteq> 1"
    using that by simp
  have part1: "P \<noteq> 0 \<or> turn_page (widget b) = P \<longrightarrow>
      page_elements (turned P view b) = page_elements (updatePageShadows P b)"
    using page_elements_turned [of P b view] by blast
  have part2: "turn_view (widget b) = Some (l # r # rest) \<longrightarrow>
      (\<forall>k<length (page_elements b).
         hasClass ''right-shadow'' (page_elements (updatePageShadows P b) ! k)
           = (1 \<le> r \<and> k = nat (r - 1)) \<and>
         hasClass ''left-shadow'' (page_elements (updatePageShadows P b) ! k)
           = (P > 1 \<and> 1 \<le> l \<and> k = nat (l - 1))) \<and>
      (1 \<le> r \<and> r \<le> int (length (page_elements b)) \<longrightarrow>
         hasClass ''right-shadow'' (page_elements (updatePageShadows P b) ! nat (r - 1))) \<and>
      (1 \<le> l \<and> l \<le> int (length (page_elements b)) \<longrightarrow>
         hasClass ''left-shadow'' (page_elements (updatePageShadows P b) ! nat (l - 1)) = (P > 1))"
    using two two_r two_l by blast
  have part3: "turn_view (widget b) = Some [v] \<and> 1 \<le> v \<longrightarrow>
      (\<forall>k<length (page_elements b).
         hasClass ''right-shadow'' (page_elements (updatePageShadows P b) ! k)
           = (P = 1 \<and> k = nat (v - 1)) \<and>
         hasClass ''left-shadow'' (page_elements (updatePageShadows P b) ! k)
           = (P \<noteq> 1 \<and> k = nat (v - 1)))"
    using one_all by blast
  have part4: "turn_view (widget b) = Some [v] \<and> 1 \<le> v \<and> v \<le> int (length (page_elements b)) \<longrightarrow>
      (P = 1 \<longrightarrow>
         hasClass ''right-shadow'' (page_elements (updatePageShadows P b) ! nat (v - 1)) \<and>
         \<not> hasClass ''left-shadow'' (page_elements (updatePageShadows P b) ! nat (v - 1))) \<and>
      (P = int (totalPages b) \<and> totalPages b \<noteq> 1 \<longrightarrow>
         hasClass ''left-shadow'' (page_elements (updatePageShadows P b) ! nat (v - 1)) \<and>
         \<not> hasClass ''right-shadow'' (page_elements (updatePageShadows P b) ! nat (v - 1)))"
    using one last by blast
  from part1 length_page_elements_updatePageShadows [of P b] kept part2 part3 part4
  show ?thesis by (intro conjI)
qed

lemma page_elements_widget_update [simp]:
  "page_elements (b\<lparr>widget := w\<rparr>) = page_elements b"
  by (simp add: page_elements_def)

lemma example_spread_pages: "length (page_elements example_spread) = 4"
  by code_simp

theorem updatePageShadows_rule_witness:
  "(3::int) \<noteq> 0 \<and>
   turn_view (widget example_spread) = Some [2, 3] \<and>
   length (page_elements example_spread) = 4 \<and>
   page_elements (turned 3 (Some [2, 3]) example_spread)
     = page_elements (updatePageShadows 3 example_spread) \<and>
   hasClass ''right-shadow'' (page_elements (updatePageShadows 3 example_spread) ! 2) \<and>
   hasClass ''left-shadow'' (page_elements (updatePageShadows 3 example_spread) ! 1) \<and>
   \<not> hasClass ''right-shadow'' (page_elements (updatePageShadows 3 example_spread) ! 3) \<and>
   \<not> hasClass ''left-shadow'' (page_elements (updatePageShadows 3 example_spread) ! 3) \<and>
   \<not> hasClass ''right-shadow'' (page_elements (updatePageShadows 3 example_spread) ! 0) \<and>
   \<not> hasClass ''left-shadow'' (page_elements (updatePageShadows 3 example_spread) ! 2) \<and>
   hasClass ''page'' (page_elements (updatePageShadows 3 example_spread) ! 3) \<and>
   hasClass ''right-shadow''
     (page_elements (updatePageShadows 1
        (example_spread\<lparr>widget := \<lparr>turn_page = 1, turn_view = Some [1]\<rparr>\<rparr>)) ! 0) \<and>
   \<not> hasClass ''left-shadow''
     (page_elements (updatePageShadows 1
        (example_spread\<lparr>widget := \<lparr>turn_page = 1, turn_view = Some [1]\<rparr>\<rparr>)) ! 0) \<and>
   \<not> hasClass ''right-shadow''
     (page_elements (updatePageShadows 1
        (example_spread\<lparr>widget := \<lparr>turn_page = 1, turn_view = Some [1]\<rparr>\<rparr>)) ! 3) \<and>
   totalPages example_spread = 4 \<and>
   hasClass ''left-shadow''
     (page_elements (updatePageShadows 4
        (example_spread\<lparr>widget := \<lparr>turn_page = 4, turn_view = Some [4]\<rparr>\<rparr>)) ! 3) \<and>
   \<not> hasClass ''right-shadow''
     (page_elements (updatePageShadows 4
        (example_spread\<lparr>widget := \<lparr>turn_page = 4, turn_view = Some [4]\<rparr>\<rparr>)) ! 3)"
proof -
  let ?first = "example_spread\<lparr>widget := \<lparr>turn_page = 1, turn_view = Some [1]\<rparr>\<rparr>"
  let ?last = "example_spread\<lparr>widget := \<lparr>turn_page = 4, turn_view = Some [4]\<rparr>\<rparr>"
  have n: "(3::int) \<noteq> 0" by simp
  have v: "turn_view (widget example_spread) = Some (2 # 3 # [])"
    by (simp add: example_spread_def)
  have t: "totalPages example_spread = 4" "totalPages ?last = 4"
    by (simp_all add: example_spread_def)
  have len: "length (page_elements example_spread) = 4" "length (page_elements ?first) = 4"
    "length (page_elements ?last) = 4"
    by (simp_all add: example_spread_pages)
  have v1: "turn_view (widget ?first) = Some [1]" and v4: "turn_view (widget ?last) = Some [4]"
    by simp_all
  have stale: "hasClass ''page'' (page_elements example_spread ! 3)" by code_simp
  note spread = updatePageShadows_rule [of 3 example_spread "Some [2, 3]" 2 3 "[]"]
  from spread n v len(1)
  have a: "page_elements (turned 3 (Some [2, 3]) example_spread)
             = page_elements (updatePageShadows 3 example_spread) \<and>
           hasClass ''right-shadow'' (page_elements (updatePageShadows 3 example_spread) ! 2) \<and>
           hasClass ''left-shadow'' (page_elements (updatePageShadows 3 example_spread) ! 1)"
    by simp
  from spread v len(1)
  have others: "\<forall>k<4.
         hasClass ''right-shadow'' (page_elements (updatePageShadows 3 example_spread) ! k)
           = (k = 2) \<and>
         hasClass ''left-shadow'' (page_elements (updatePageShadows 3 example_spread) ! k)
           = (k = 1)"
    by simp
  then have a': "\<not> hasClass ''right-shadow'' (page_elements (updatePageShadows 3 example_spread) ! 3) \<and>
      \<not> hasClass ''left-shadow'' (page_elements (updatePageShadows 3 example_spread) ! 3) \<and>
      \<not> hasClass ''right-shadow'' (page_elements (updatePageShadows 3 example_spread) ! 0) \<and>
      \<not> hasClass ''left-shadow'' (page_elements (updatePageShadows 3 example_spread) ! 2)"
    by simp
  from spread len(1)
  have "\<forall>k<4. \<forall>c. c \<noteq> ''left-shadow'' \<and> c \<noteq> ''right-shadow'' \<longrightarrow>
      hasClass c (page_elements (updatePageShadows 3 example_spread) ! k)
        = hasClass c (page_elements example_spread ! k)"
    by simp
  with stale have a'': "hasClass ''page'' (page_elements (updatePageShadows 3 example_spread) ! 3)"
    by simp
  note single = updatePageShadows_rule [of 1 ?first None 0 0 "[]" 1]
  from single v1 len(2)
  have b: "hasClass ''right-shadow'' (page_elements (updatePageShadows 1 ?first) ! 0) \<and>
           \<not> hasClass ''left-shadow'' (page_elements (updatePageShadows 1 ?first) ! 0)"
    by simp
  from single v1 len(2)
  have "\<forall>k<4. hasClass ''right-shadow'' (page_elements (updatePageShadows 1 ?first) ! k) = (k = 0)"
    by simp
  then have b': "\<not> hasClass ''right-shadow'' (page_elements (updatePageShadows 1 ?first) ! 3)"
    by simp
  from updatePageShadows_rule [of 4 ?last None 0 0 "[]" 4] v4 len(3) t(2)
  have c: "hasClass ''left-shadow'' (page_elements (updatePageShadows 4 ?last) ! 3) \<and>
           \<not> hasClass ''right-shadow'' (page_elements (updatePageShadows 4 ?last) ! 3)"
    by simp
  from n v len(1) t(1) a a' a'' b b' c show ?thesis by simp
qed

section \<open>Guards of the shadow rule\<close>

text \<open>
  Claim C10. When the widget reports no viewport (null) or an empty one, no page element
  has a shadow class after \<^verbatim>\<open>updatePageShadows\<close>. With a viewport of two (or more)
  entries \<open>l, r\<close>, a page element has left-shadow afterwards exactly when \<open>P > 1\<close>,
  \<open>l \<ge> 1\<close> and it is the page \<open>l\<close>; so with a left entry below 1, such as 0, no page has
  left-shadow, even when \<open>P > 1\<close>.
\<close>

theorem updatePageShadows_guards:
  "(turn_view (widget b) = None \<or> turn_view (widget b) = Some [] \<longrightarrow>
      length (page_elements (updatePageShadows P b)) = length (page_elements b) \<and>
      (\<forall>k<length (page_elements b).
         \<not> hasClass ''left-shadow'' (page_elements (updatePageShadows P b) ! k) \<and>
         \<not> hasClass ''right-shadow'' (page_elements (updatePageShadows P b) ! k))) \<and>
   (turn_view (widget b) = Some (l # r # rest) \<longrightarrow>
      length (page_elements (updatePageShadows P b)) = length (page_elements b) \<and>
      (\<forall>k<length (page_elements b).
         hasClass ''left-shadow'' (page_elements (updatePageShadows P b) ! k)
           = (P > 1 \<and> l \<ge> 1 \<and> k = nat (l - 1))) \<and>
      (l < 1 \<longrightarrow>
         (\<forall>k<length (page_elements b).
            \<not> hasClass ''left-shadow'' (page_elements (updatePageShadows P b) ! k))))"
proof -
  have none: "length (page_elements (updatePageShadows P b)) = length (page_elements b) \<and>
      (\<forall>k<length (page_elements b).
         \<not> hasClass ''left-shadow'' (page_elements (updatePageShadows P b) ! k) \<and>
         \<not> hasClass ''right-shadow'' (page_elements (updatePageShadows P b) ! k))"
    if v: "turn_view (widget b) = None \<or> turn_view (widget b) = Some []"
    using updatePageShadows_no_view [OF v]
    by (simp add: length_page_elements_cleared hasClass_cleared)
  have two: "length (page_elements (updatePageShadows P b)) = length (page_elements b) \<and>
      (\<forall>k<length (page_elements b).
         hasClass ''left-shadow'' (page_elements (updatePageShadows P b) ! k)
           = (P > 1 \<and> l \<ge> 1 \<and> k = nat (l - 1)))"
    if v: "turn_view (widget b) = Some (l # r # rest)"
  proof (intro conjI allI impI)
    show "length (page_elements (updatePageShadows P b)) = length (page_elements b)"
      using v
      by (simp add: updatePageShadows_two Let_def length_page_elements_cleared
            length_page_elements_page_addClass)
  next
    fix k assume "k < length (page_elements b)"
    from shadows_two(2) [OF v this]
    show "hasClass ''left-shadow'' (page_elements (updatePageShadows P b) ! k)
           = (P > 1 \<and> l \<ge> 1 \<and> k = nat (l - 1))" .
  qed
  from none two show ?thesis by auto
qed

theorem updatePageShadows_guards_witness:
  "turn_view (widget (example_spread\<lparr>widget := \<lparr>turn_page = 2, turn_view = None\<rparr>\<rparr>)) = None \<and>
   (3::nat) < length (page_elements (example_spread\<lparr>widget := \<lparr>turn_page = 2, turn_view = None\<rparr>\<rparr>)) \<and>
   hasClass ''left-shadow'' (page_elements example_spread ! 3) \<and>
   \<not> hasClass ''left-shadow''
     (page_elements (updatePageShadows 2
        (example_spread\<lparr>widget := \<lparr>turn_page = 2, turn_view = None\<rparr>\<rparr>)) ! 3) \<and>
   \<not> hasClass ''right-shadow''
     (page_elements (updatePageShadows 2
        (example_spread\<lparr>widget := \<lparr>turn_page = 2, turn_view = None\<rparr>\<rparr>)) ! 3) \<and>
   turn_view (widget (example_spread\<lparr>widget := \<lparr>turn_page = 2, turn_view = Some [0, 1]\<rparr>\<rparr>))
     = Some [0, 1] \<and>
   (0::int) < 1 \<and> (1::int) < 2 \<and>
   \<not> hasClass ''left-shadow''
     (page_elements (updatePageShadows 2
        (example_spread\<lparr>widget := \<lparr>turn_page = 2, turn_view = Some [0, 1]\<rparr>\<rparr>)) ! 3)"
proof -
  let ?none = "example_spread\<lparr>widget := \<lparr>turn_page = 2, turn_view = None\<rparr>\<rparr>"
  let ?zero = "example_spread\<lparr>widget := \<lparr>turn_page = 2, turn_view = Some [0, 1]\<rparr>\<rparr>"
  have v: "turn_view (widget ?none) = None" "turn_view (widget ?zero) = Some (0 # 1 # [])"
    by simp_all
  have len: "(3::nat) < length (page_elements ?none)" "(3::nat) < length (page_elements ?zero)"
    by (simp_all add: example_spread_pages)
  have stale: "hasClass ''left-shadow'' (page_elements example_spread ! 3)"
    by code_simp
  from updatePageShadows_guards [of ?none 2 0 0 "[]"] v(1) len(1)
  have a: "\<not> hasClass ''left-shadow'' (page_elements (updatePageShadows 2 ?none) ! 3) \<and>
           \<not> hasClass ''right-shadow'' (page_elements (updatePageShadows 2 ?none) ! 3)"
    by blast
  have z: "(0::int) < 1" by simp
  from updatePageShadows_guards [of ?zero 2 0 1 "[]"] v(2) len(2) z
  have b: "\<not> hasClass ''left-shadow'' (page_elements (updatePageShadows 2 ?zero) ! 3)"
    by blast
  from v len(1) stale a b show ?thesis by simp
qed


section \<open>Recomputing the shadows\<close>

lemma remove_classes_add_class:
  "c \<in> set cs \<Longrightarrow> remove_classes cs (add_class c e) = remove_classes cs e"
  by (simp add: remove_classes_def add_class_def)

lemma remove_classes_idem: "remove_classes cs (remove_classes cs e) = remove_classes cs e"
  by (simp add: remove_classes_def)

lemma pages_removeClass_page_addClass:
  assumes "c \<in> set cs" "''page'' \<notin> set cs"
  shows "pages_removeClass cs (page_addClass c index b) = pages_removeClass cs b"
proof -
  let ?es = "flipbook b" and ?ps = "find_class ''page'' (flipbook b)"
  let ?sel = "eq_jq index ?ps"
  have same: "find_class ''page'' (addClass c ?sel ?es) = ?ps"
    unfolding addClass_def
    by (intro find_class_on_selected) (simp_all add: eq_jq_subset hasClass_add_class)
  have "removeClass cs ?ps (addClass c ?sel ?es) = removeClass cs ?ps ?es"
  proof (rule nth_equalityI)
    show "length (removeClass cs ?ps (addClass c ?sel ?es)) = length (removeClass cs ?ps ?es)"
      by simp
  next
    fix i assume "i < length (removeClass cs ?ps (addClass c ?sel ?es))"
    then have i: "i < length ?es" by simp
    show "removeClass cs ?ps (addClass c ?sel ?es) ! i = removeClass cs ?ps ?es ! i"
    proof (cases "i \<in> set ?ps")
      case True
      with i assms(1) show ?thesis
        by (simp add: nth_removeClass nth_addClass remove_classes_add_class)
    next
      case False
      with eq_jq_subset [of index ?ps] have "i \<notin> set ?sel" by blast
      with False i show ?thesis
        by (simp add: nth_removeClass nth_addClass)
    qed
  qed
  then show ?thesis
    by (simp add: pages_removeClass_def page_addClass_def same)
qed

lemma pages_removeClass_idem:
  assumes "''page'' \<notin> set cs"
  shows "pages_removeClass cs (pages_removeClass cs b) = pages_removeClass cs b"
proof -
  let ?es = "flipbook b" and ?ps = "find_class ''page'' (flipbook b)"
  have same: "find_class ''page'' (removeClass cs ?ps ?es) = ?ps"
    unfolding removeClass_def using assms
    by (intro find_class_on_selected) (simp_all add: hasClass_remove_classes)
  have "removeClass cs ?ps (removeClass cs ?ps ?es) = removeClass cs ?ps ?es"
    by (rule nth_equalityI) (simp_all add: nth_removeClass remove_classes_idem)
  then show ?thesis
    by (simp add: pages_removeClass_def same)
qed

lemma pages_removeClass_updatePageShadows:
  "pages_removeClass [''left-shadow'', ''right-shadow''] (updatePageShadows page b)
     = pages_removeClass [''left-shadow'', ''right-shadow''] b"
  by (simp add: updatePageShadows_def Let_def pages_removeClass_page_addClass
        pages_removeClass_idem split: option.splits)

lemma updatePageShadows_from_cleared:
  assumes "pages_removeClass [''left-shadow'', ''right-shadow''] b'
             = pages_removeClass [''left-shadow'', ''right-shadow''] b"
  shows "updatePageShadows page b' = updatePageShadows page b"
  using assms by (simp add: updatePageShadows_def)

lemma widget_updatePageShadows [simp]: "widget (updatePageShadows page b) = widget b"
  by (subst updatePageShadows_frame) simp

lemma count_add_class:
  assumes "count_list (classes e) x \<le> 1"
  shows "count_list (classes (add_class c e)) x \<le> 1"
proof (cases "c \<in> set (classes e)")
  case True
  with assms show ?thesis by (simp add: add_class_def)
next
  case False
  with assms show ?thesis by (auto simp: add_class_def count_list_0_iff)
qed

lemma count_page_addClass:
  assumes "\<forall>k<length (page_elements b). count_list (classes (page_elements b ! k)) x \<le> 1"
  shows "\<forall>k<length (page_elements b).
           count_list (classes (page_elements (page_addClass c index b) ! k)) x \<le> 1"
proof -
  have upd: "\<forall>k<length (page_elements b).
      count_list (classes ((page_elements b)[j := add_class c (page_elements b ! j)] ! k)) x \<le> 1"
    for j
  proof (intro allI impI)
    fix k assume k: "k < length (page_elements b)"
    with assms have "count_list (classes (page_elements b ! k)) x \<le> 1" by blast
    with k count_add_class [of "page_elements b ! k" x c]
    show "count_list (classes ((page_elements b)[j := add_class c (page_elements b ! j)] ! k)) x \<le> 1"
      by (cases "k = j") simp_all
  qed
  show ?thesis
    using assms upd by (simp add: page_elements_page_addClass_any Let_def)
qed

lemma count_cleared:
  assumes "x \<in> set cs" "''page'' \<notin> set cs"
  shows "\<forall>k<length (page_elements b).
           count_list (classes (page_elements (pages_removeClass cs b) ! k)) x \<le> 1"
proof -
  have "count_list (classes (remove_classes cs e)) x = 0" for e
    using assms(1) by (simp add: remove_classes_def count_list_0_iff)
  with assms(2) show ?thesis
    by (simp add: page_elements_pages_removeClass)
qed


lemma count_updatePageShadows:
  assumes "x = ''left-shadow'' \<or> x = ''right-shadow''"
  shows "\<forall>k<length (page_elements b).
           count_list (classes (page_elements (updatePageShadows page b) ! k)) x \<le> 1"
proof -
  define inv where "inv = (\<lambda>b'. length (page_elements b') = length (page_elements b) \<and>
     (\<forall>k<length (page_elements b). count_list (classes (page_elements b' ! k)) x \<le> 1))"
  let ?b1 = "pages_removeClass [''left-shadow'', ''right-shadow''] b"
  have start: "inv ?b1"
    using assms count_cleared [of x "[''left-shadow'', ''right-shadow'']" b]
    by (auto simp: inv_def length_page_elements_cleared)
  have step: "inv (page_addClass c index b')" if "inv b'" for c index b'
    using that count_page_addClass [of b' x c index]
    by (simp add: inv_def length_page_elements_page_addClass_any)
  have "inv (updatePageShadows page b)"
    by (simp add: updatePageShadows_def Let_def start step split: option.splits)
  then show ?thesis by (simp add: inv_def)
qed

text \<open>
  Claim C7. \<^verbatim>\<open>updatePageShadows\<close> first removes left-shadow and right-shadow from every
  page element, so its result is the same whether or not the pages carried shadow
  classes before. Running it twice in a row with the same page and viewport gives the
  result of running it once, and running it after an update for any other page gives
  the result of running it alone. Afterwards no page element carries a shadow class more
  than once.
\<close>

theorem updatePageShadows_idempotent:
  "updatePageShadows P (updatePageShadows P b) = updatePageShadows P b \<and>
   updatePageShadows P (updatePageShadows Q b) = updatePageShadows P b \<and>
   updatePageShadows P (pages_removeClass [''left-shadow'', ''right-shadow''] b)
     = updatePageShadows P b \<and>
   length (page_elements (updatePageShadows P b)) = length (page_elements b) \<and>
   (\<forall>k<length (page_elements b).
      count_list (classes (page_elements (updatePageShadows P b) ! k)) ''left-shadow'' \<le> 1 \<and>
      count_list (classes (page_elements (updatePageShadows P b) ! k)) ''right-shadow'' \<le> 1)"
proof -
  have again: "updatePageShadows P (updatePageShadows R b) = updatePageShadows P b" for R
    by (rule updatePageShadows_from_cleared) (rule pages_removeClass_updatePageShadows)
  have cleared: "updatePageShadows P (pages_removeClass [''left-shadow'', ''right-shadow''] b)
                   = updatePageShadows P b"
    by (rule updatePageShadows_from_cleared) (simp add: pages_removeClass_idem)
  from again [of P] again [of Q] cleared length_page_elements_updatePageShadows [of P b]
    count_updatePageShadows [of "''left-shadow''" b P]
    count_updatePageShadows [of "''right-shadow''" b P]
  show ?thesis by simp
qed

theorem updatePageShadows_idempotent_witness:
  "(3::nat) < length (page_elements example_spread) \<and>
   classes (page_elements example_spread ! 3) = [''page'', ''left-shadow'', ''right-shadow''] \<and>
   classes (page_elements (updatePageShadows 3 example_spread) ! 3) = [''page''] \<and>
   classes (page_elements (updatePageShadows 3 example_spread) ! 2) = [''page'', ''right-shadow''] \<and>
   updatePageShadows 3 (updatePageShadows 3 example_spread) = updatePageShadows 3 example_spread \<and>
   count_list (classes (page_elements (updatePageShadows 3 example_spread) ! 3)) ''left-shadow'' \<le> 1 \<and>
   count_list (classes (page_elements (updatePageShadows 3 example_spread) ! 2)) ''right-shadow'' \<le> 1"
proof -
  have len: "(3::nat) < length (page_elements example_spread)"
    "(2::nat) < length (page_elements example_spread)"
    by (simp_all add: example_spread_pages)
  have before: "classes (page_elements example_spread ! 3) = [''page'', ''left-shadow'', ''right-shadow'']"
    by code_simp
  have after: "classes (page_elements (updatePageShadows 3 example_spread) ! 3) = [''page'']"
    "classes (page_elements (updatePageShadows 3 example_spread) ! 2) = [''page'', ''right-shadow'']"
    by code_simp+
  note t = updatePageShadows_idempotent [of 3 example_spread 3]
  from t have twice: "updatePageShadows 3 (updatePageShadows 3 example_spread)
                        = updatePageShadows 3 example_spread"
    by blast
  from t len have once:
    "count_list (classes (page_elements (updatePageShadows 3 example_spread) ! 3)) ''left-shadow'' \<le> 1"
    "count_list (classes (page_elements (updatePageShadows 3 example_spread) ! 2)) ''right-shadow'' \<le> 1"
    by blast+
  from len(1) before after twice once show ?thesis by blast
qed

end
